theory Spec2Isabelle
  imports Complex_Main "HOL-Library.AList"
begin

section \<open>Python values\<close>

text \<open>
  The analysis pipeline of \<^verbatim>\<open>analysis.py\<close> works on untyped JSON-like Python values:
  what the data collector returns, what \<^verbatim>\<open>json.loads\<close> returns for a response of the
  language model, and the analysis mapping built from them. A value is \<^verbatim>\<open>None\<close>, a
  \<^verbatim>\<open>bool\<close>, an \<^verbatim>\<open>int\<close>, a \<^verbatim>\<open>float\<close>, a \<^verbatim>\<open>str\<close>, a \<^verbatim>\<open>list\<close> or a \<^verbatim>\<open>dict\<close> with string
  keys. A dict is an association list in insertion order (Python dicts iterate in
  insertion order); \<open>map_of\<close> is the lookup and \<open>AList.update\<close> the assignment
  \<^verbatim>\<open>d[k] = v\<close>, which keeps the position of a key that is present and appends a new one.

  Idealisations: a \<^verbatim>\<open>float\<close> is the rational number it denotes (no rounding, no
  \<^verbatim>\<open>nan\<close> or \<^verbatim>\<open>inf\<close>, no overflow when an \<^verbatim>\<open>int\<close> is converted). A string is a
  list of 8-bit characters: it stands for a Python string of ASCII characters, code
  point for character. \<^verbatim>\<open>str.strip\<close> and \<^verbatim>\<open>str.capitalize\<close> are modelled below as they
  are on such strings; Python's whitespace and case mapping of code points past 127 are
  not modelled, so every statement about the two functions is made for ASCII strings
  (\<open>is_ascii\<close>) only.
\<close>

datatype pyval =
    PNone
  | PBool bool
  | PInt int
  | PFloat rat
  | PStr string
  | PList "pyval list"
  | PDict "(string \<times> pyval) list"

type_synonym pydict = "(string \<times> pyval) list"

text \<open>The exceptions the modelled code can raise.\<close>

datatype exn =
    KeyError
  | TypeError
  | AttributeError
  | ValueError
  | APIError
  | JSONDecodeError
  | RetryError exn

subsection \<open>Strings: \<^verbatim>\<open>str.strip\<close> and \<^verbatim>\<open>str.capitalize\<close>\<close>

definition is_ascii :: "string \<Rightarrow> bool" where
  "is_ascii s = list_all (\<lambda>c. (of_char c :: nat) < 128) s"

text \<open>
  \<^verbatim>\<open>str.isspace\<close> on ASCII: tab, line feed, vertical tab, form feed, carriage return,
  the four separators 0x1C to 0x1F, and the space.
\<close>

definition py_isspace :: "char \<Rightarrow> bool" where
  "py_isspace c = (c \<in> set [CHR 0x09, CHR 0x0A, CHR 0x0B, CHR 0x0C, CHR 0x0D,
                              CHR 0x1C, CHR 0x1D, CHR 0x1E, CHR 0x1F, CHR 0x20])"

definition py_strip :: "string \<Rightarrow> string" where
  "py_strip s = rev (dropWhile py_isspace (rev (dropWhile py_isspace s)))"

definition py_upper_char :: "char \<Rightarrow> char" where
  "py_upper_char c =
     (let n = (of_char c :: nat) in if 97 \<le> n \<and> n \<le> 122 then char_of (n - 32) else c)"

definition py_lower_char :: "char \<Rightarrow> char" where
  "py_lower_char c =
     (let n = (of_char c :: nat) in if 65 \<le> n \<and> n \<le> 90 then char_of (n + 32) else c)"

text \<open>
  \<^verbatim>\<open>str.capitalize()\<close>: "return a copy of the string with its first character
  capitalized and the rest lowercased"; on an ASCII string, character by character.
\<close>

definition py_capitalize :: "string \<Rightarrow> string" where
  "py_capitalize s = (case s of [] \<Rightarrow> [] | c # cs \<Rightarrow> py_upper_char c # map py_lower_char cs)"

section \<open>Postprocessor stage 1: \<^verbatim>\<open>normalize_texts\<close>\<close>

text \<open>
  \<^verbatim>\<open>
  def process_value(value):
      if isinstance(value, str):
          return value.strip().capitalize()
      if isinstance(value, dict):
          return {k: process_value(v) for k, v in value.items()}
      if isinstance(value, list):
          return [process_value(item) for item in value]
      return value

  text_fields = ['trends', 'competitive_landscape', 'summary']
  for field in text_fields:
      if field in analysis:
          analysis[field] = process_value(analysis[field])
  return analysis
  \<close>
\<close>

fun process_value :: "pyval \<Rightarrow> pyval" where
  "process_value (PStr s) = PStr (py_capitalize (py_strip s))"
| "process_value (PDict d) = PDict (map (\<lambda>(k, v). (k, process_value v)) d)"
| "process_value (PList xs) = PList (map process_value xs)"
| "process_value v = v"

definition text_fields :: "string list" where
  "text_fields = [''trends'', ''competitive_landscape'', ''summary'']"

definition normalize_field :: "pydict \<Rightarrow> string \<Rightarrow> pydict" where
  "normalize_field analysis field =
     (case map_of analysis field of
        None \<Rightarrow> analysis
      | Some v \<Rightarrow> AList.update field (process_value v) analysis)"

definition normalize_texts :: "pydict \<Rightarrow> pydict" where
  "normalize_texts analysis = foldl normalize_field analysis text_fields"

text \<open>
  To speak about "a string leaf reached by the stage": a path into a value is a list of
  dict keys and list indices, and \<open>leaf_at v p\<close> is the value found by following \<open>p\<close>.
\<close>

datatype step = Key string | Idx nat

fun leaf_at :: "pyval \<Rightarrow> step list \<Rightarrow> pyval option" where
  "leaf_at v [] = Some v"
| "leaf_at (PDict d) (Key k # p) = (case map_of d k of None \<Rightarrow> None | Some v \<Rightarrow> leaf_at v p)"
| "leaf_at (PList xs) (Idx i # p) = (if i < length xs then leaf_at (xs ! i) p else None)"
| "leaf_at v (s # p) = None"

text \<open>
  What the specification says the stage does to a string: capitalise the first letter
  and leave the casing of the rest as it is.
\<close>

definition spec_capitalize_first :: "string \<Rightarrow> string" where
  "spec_capitalize_first s = (case s of [] \<Rightarrow> [] | c # cs \<Rightarrow> py_upper_char c # cs)"

section \<open>Chunker: \<^verbatim>\<open>chunk_data\<close>\<close>

text \<open>
  \<^verbatim>\<open>preprocess_data\<close> builds the dict \<^verbatim>\<open>{'news': [...], 'search_results': '...'}\<close> with
  exactly these two keys, a list of strings and a string: a record. (The defaults of
  \<^verbatim>\<open>data.get('news', [])\<close> and \<^verbatim>\<open>data.get('search_results', '')\<close> in \<^verbatim>\<open>chunk_data\<close> are
  never taken on it.)
\<close>

record preprocessed =
  news :: "string list"
  search_results :: string

text \<open>\<^verbatim>\<open>s.split(c)\<close> for a one-character separator: never the empty list.\<close>

fun py_split :: "char \<Rightarrow> string \<Rightarrow> string list" where
  "py_split c [] = [[]]"
| "py_split c (x # xs) =
     (if x = c then [] # py_split c xs
      else (case py_split c xs of [] \<Rightarrow> [[x]] | y # ys \<Rightarrow> (x # y) # ys))"

text \<open>
  \<^verbatim>\<open>
  def chunk_data(self, data: dict, max_items: int = 5) -> List[dict]:
      chunks = []
      current_chunk = []
      for article in data.get('news', [])[:20]:
          current_chunk.append({'news': article})
          if len(current_chunk) >= max_items:
              chunks.append({'news': current_chunk})
              current_chunk = []
      search_items = data.get('search_results', '').split('\n')[:10]
      for i in range(0, len(search_items), max_items):
          chunks.append({'search_results': search_items[i:i+max_items]})
      return chunks
  \<close>
  The first loop is \<open>news_loop\<close>, on the pair of \<^verbatim>\<open>chunks\<close> and \<^verbatim>\<open>current_chunk\<close>; what
  is left in \<^verbatim>\<open>current_chunk\<close> after it is never appended. The second is \<open>search_loop\<close>,
  the index \<^verbatim>\<open>i\<close> running over \<^verbatim>\<open>range(0, len(search_items), max_items)\<close>: the range is
  empty for a negative step and \<^verbatim>\<open>range\<close> raises \<^verbatim>\<open>ValueError\<close> for the step 0.
\<close>

fun news_loop :: "int \<Rightarrow> string list \<Rightarrow> pyval list \<times> pyval list \<Rightarrow> pyval list \<times> pyval list" where
  "news_loop max_items [] (chunks, current_chunk) = (chunks, current_chunk)"
| "news_loop max_items (article # rest) (chunks, current_chunk) =
     (let current_chunk' = current_chunk @ [PDict [(''news'', PStr article)]]
      in if int (length current_chunk') \<ge> max_items
         then news_loop max_items rest (chunks @ [PDict [(''news'', PList current_chunk')]], [])
         else news_loop max_items rest (chunks, current_chunk'))"

function search_loop :: "int \<Rightarrow> string list \<Rightarrow> int \<Rightarrow> pyval list" where
  "search_loop max_items search_items i =
     (if 0 < max_items \<and> 0 \<le> i \<and> i < int (length search_items)
      then PDict [(''search_results'',
                   PList (map PStr (take (nat max_items) (drop (nat i) search_items))))]
           # search_loop max_items search_items (i + max_items)
      else [])"
  by pat_completeness auto
termination
  by (relation "measure (\<lambda>(m, items, i). length items - nat i)") auto

declare search_loop.simps [simp del]

definition chunk_data :: "preprocessed \<Rightarrow> int \<Rightarrow> exn + pyval list" where
  "chunk_data data max_items =
     (let (chunks, current_chunk) = news_loop max_items (take 20 (news data)) ([], []);
          search_items = take 10 (py_split CHR ''\<newline>'' (search_results data))
      in if max_items = 0 then Inl ValueError
         else Inr (chunks @ search_loop max_items search_items 0))"

text \<open>
  For the statements: the shape of a news chunk and of a search chunk, the grouping of
  a list into full batches of \<open>n\<close> (a shorter rest dropped) and into batches of \<open>n\<close>
  (a shorter rest kept), and the two inputs of the specification's examples.
\<close>

definition news_chunk :: "string list \<Rightarrow> pyval" where
  "news_chunk b = PDict [(''news'', PList (map (\<lambda>a. PDict [(''news'', PStr a)]) b))]"

definition search_chunk :: "string list \<Rightarrow> pyval" where
  "search_chunk b = PDict [(''search_results'', PList (map PStr b))]"

fun full_batches :: "nat \<Rightarrow> 'a list \<Rightarrow> 'a list list" where
  "full_batches n xs =
     (if n = 0 \<or> length xs < n then [] else take n xs # full_batches n (drop n xs))"

fun batches :: "nat \<Rightarrow> 'a list \<Rightarrow> 'a list list" where
  "batches n xs = (if n = 0 \<or> xs = [] then [] else take n xs # batches n (drop n xs))"

declare full_batches.simps [simp del] batches.simps [simp del]

definition news12 :: "string list" where
  "news12 = [''n1'', ''n2'', ''n3'', ''n4'', ''n5'', ''n6'', ''n7'', ''n8'', ''n9'', ''n10'',
             ''n11'', ''n12'']"

definition search7 :: string where
  "search7 = ''s1\<newline>s2\<newline>s3\<newline>s4\<newline>s5\<newline>s6\<newline>s7''"

section \<open>Python builtins used by the pipeline\<close>

text \<open>
  Two builtins of Python are not modelled but taken as parameters: \<^verbatim>\<open>repr\<close> of a value
  that is not a string (the text an f-string or \<^verbatim>\<open>str()\<close> gives for a number, a list
  or a dict), and \<^verbatim>\<open>float(s)\<close> of a string (\<open>None\<close> when it raises \<^verbatim>\<open>ValueError\<close>).
\<close>

record builtins =
  py_repr :: "pyval \<Rightarrow> string"
  py_float_of_str :: "string \<Rightarrow> rat option"

text \<open>\<^verbatim>\<open>str(v)\<close>, which is also what \<^verbatim>\<open>f'{v}'\<close> gives: a string is itself.\<close>

definition py_str :: "builtins \<Rightarrow> pyval \<Rightarrow> string" where
  "py_str B v = (case v of PStr s \<Rightarrow> s | _ \<Rightarrow> py_repr B v)"

text \<open>\<^verbatim>\<open>d.update(other)\<close> on dicts.\<close>

definition dict_update :: "pydict \<Rightarrow> pydict \<Rightarrow> pydict" where
  "dict_update d other = foldl (\<lambda>acc (k, v). AList.update k v acc) d other"

section \<open>Response merger: \<^verbatim>\<open>merge_responses\<close>\<close>

text \<open>
  \<^verbatim>\<open>
  def merge_responses(self, responses: List) -> dict:
      merged = {}
      for response in responses:
          for key, value in response.items():
              if isinstance(value, list):
                  merged.setdefault(key, []).extend(value)
              elif isinstance(value, dict):
                  merged.setdefault(key, {}).update(value)
              else:
                  merged[key] = f'{merged.get(key, '')}\n{value}'.strip()
      return merged
  \<close>
  Each branch reads the current entry of \<^verbatim>\<open>merged\<close> at \<^verbatim>\<open>key\<close> (\<open>None\<close> when absent)
  and stores a new one. \<^verbatim>\<open>setdefault\<close> returns the entry that is there, so \<^verbatim>\<open>extend\<close>
  on an entry that is not a list, and \<^verbatim>\<open>update\<close> on one that is not a dict, raise
  \<^verbatim>\<open>AttributeError\<close>. The last branch formats whatever is there and whatever comes.
\<close>

fun merge_list :: "pyval option \<Rightarrow> pyval list \<Rightarrow> exn + pyval" where
  "merge_list None xs = Inr (PList ([] @ xs))"
| "merge_list (Some (PList ys)) xs = Inr (PList (ys @ xs))"
| "merge_list (Some v) xs = Inl AttributeError"

fun merge_dict :: "pyval option \<Rightarrow> pydict \<Rightarrow> exn + pyval" where
  "merge_dict None d = Inr (PDict (dict_update [] d))"
| "merge_dict (Some (PDict e)) d = Inr (PDict (dict_update e d))"
| "merge_dict (Some v) d = Inl AttributeError"

definition merge_scalar :: "builtins \<Rightarrow> pyval option \<Rightarrow> pyval \<Rightarrow> pyval" where
  "merge_scalar B cur v =
     PStr (py_strip (py_str B (case cur of None \<Rightarrow> PStr [] | Some m \<Rightarrow> m)
                     @ [CHR ''\<newline>''] @ py_str B v))"

definition merge_field :: "builtins \<Rightarrow> pyval option \<Rightarrow> pyval \<Rightarrow> exn + pyval" where
  "merge_field B cur v =
     (case v of
        PList xs \<Rightarrow> merge_list cur xs
      | PDict d \<Rightarrow> merge_dict cur d
      | _ \<Rightarrow> Inr (merge_scalar B cur v))"

definition merge_value :: "builtins \<Rightarrow> pydict \<Rightarrow> string \<Rightarrow> pyval \<Rightarrow> exn + pydict" where
  "merge_value B merged key v =
     (case merge_field B (map_of merged key) v of
        Inl e \<Rightarrow> Inl e
      | Inr x \<Rightarrow> Inr (AList.update key x merged))"

fun merge_items :: "builtins \<Rightarrow> pydict \<Rightarrow> (string \<times> pyval) list \<Rightarrow> exn + pydict" where
  "merge_items B merged [] = Inr merged"
| "merge_items B merged ((key, v) # rest) =
     (case merge_value B merged key v of
        Inl e \<Rightarrow> Inl e
      | Inr merged' \<Rightarrow> merge_items B merged' rest)"

text \<open>The outer loop; \<^verbatim>\<open>response.items()\<close> needs a dict.\<close>

fun merge_from :: "builtins \<Rightarrow> pydict \<Rightarrow> pyval list \<Rightarrow> exn + pydict" where
  "merge_from B merged [] = Inr merged"
| "merge_from B merged (PDict d # responses) =
     (case merge_items B merged d of
        Inl e \<Rightarrow> Inl e
      | Inr merged' \<Rightarrow> merge_from B merged' responses)"
| "merge_from B merged (r # responses) = Inl AttributeError"

definition merge_responses :: "builtins \<Rightarrow> pyval list \<Rightarrow> exn + pydict" where
  "merge_responses B responses = merge_from B [] responses"

text \<open>
  For the statements. \<open>field_values k rs\<close> are the values the responses \<open>rs\<close> hold at
  the key \<open>k\<close>, in chunk order. A value is list-valued, mapping-valued or a scalar;
  \<open>consistent_kinds rs\<close> says that no key is of one kind in one response and of another
  kind in another one. \<open>join_line\<close> is one step of the scalar branch on (ASCII)
  strings, and \<open>trimmed s\<close> says that \<open>s\<close> is not empty and neither starts nor ends
  with whitespace.
\<close>

definition items_of :: "pyval \<Rightarrow> (string \<times> pyval) list" where
  "items_of r = (case r of PDict d \<Rightarrow> d | _ \<Rightarrow> [])"

definition is_mapping :: "pyval \<Rightarrow> bool" where
  "is_mapping r = (case r of PDict d \<Rightarrow> True | _ \<Rightarrow> False)"

definition values_in :: "string \<Rightarrow> (string \<times> pyval) list \<Rightarrow> pyval list" where
  "values_in k its = map snd (filter (\<lambda>kv. fst kv = k) its)"

definition field_values :: "string \<Rightarrow> pyval list \<Rightarrow> pyval list" where
  "field_values k rs = values_in k (concat (map items_of rs))"

datatype kind = KList | KDict | KScalar

definition kind_of :: "pyval \<Rightarrow> kind" where
  "kind_of v = (case v of PList xs \<Rightarrow> KList | PDict d \<Rightarrow> KDict | _ \<Rightarrow> KScalar)"

definition consistent_items :: "(string \<times> pyval) list \<Rightarrow> bool" where
  "consistent_items its =
     list_all (\<lambda>kv. list_all (\<lambda>kv'. fst kv' \<noteq> fst kv \<or> kind_of (snd kv') = kind_of (snd kv)) its)
       its"

definition consistent_kinds :: "pyval list \<Rightarrow> bool" where
  "consistent_kinds rs = consistent_items (concat (map items_of rs))"

definition join_line :: "string \<Rightarrow> string \<Rightarrow> string" where
  "join_line acc s = py_strip (acc @ [CHR ''\<newline>''] @ s)"

definition trimmed :: "string \<Rightarrow> bool" where
  "trimmed s = (s \<noteq> [] \<and> \<not> py_isspace (hd s) \<and> \<not> py_isspace (last s))"

fun intercalate :: "string \<Rightarrow> string list \<Rightarrow> string" where
  "intercalate sep [] = []"
| "intercalate sep [s] = s"
| "intercalate sep (s # t # ss) = s @ sep @ intercalate sep (t # ss)"

text \<open>
  For the proofs: what the two loops do to the entry of one key, given the values the
  responses hold at that key.
\<close>

fun fold_field :: "builtins \<Rightarrow> pyval option \<Rightarrow> pyval list \<Rightarrow> exn + pyval option" where
  "fold_field B cur [] = Inr cur"
| "fold_field B cur (v # vs) =
     (case merge_field B cur v of Inl e \<Rightarrow> Inl e | Inr x \<Rightarrow> fold_field B (Some x) vs)"

definition no_builtins :: builtins where
  "no_builtins = \<lparr>py_repr = (\<lambda>v. []), py_float_of_str = (\<lambda>s. None)\<rparr>"

definition merge_example :: "pyval list" where
  "merge_example =
     [PDict [(''a'', PList [PInt 1]), (''d'', PDict [(''x'', PInt 1)]), (''s'', PStr ''x'')],
      PDict [(''a'', PList [PInt 2, PInt 3]), (''d'', PDict [(''x'', PInt 2), (''y'', PInt 3)]),
             (''s'', PStr ''y'')]]"

text \<open>
  Two responses in which the key \<^verbatim>\<open>a\<close> is list-valued throughout while the key \<^verbatim>\<open>b\<close>
  holds a string in the first and a list in the second.
\<close>

definition mixed_example :: "pyval list" where
  "mixed_example =
     [PDict [(''a'', PList [PInt 1]), (''b'', PStr ''x'')],
      PDict [(''a'', PList [PInt 2]), (''b'', PList [PInt 3])]]"

section \<open>Python operations on untyped values\<close>

text \<open>
  Iteration (\<^verbatim>\<open>for x in v\<close>): a list gives its elements, a dict its keys, a string its
  characters; anything else raises \<^verbatim>\<open>TypeError\<close>.
\<close>

definition py_iter :: "pyval \<Rightarrow> exn + pyval list" where
  "py_iter v =
     (case v of
        PList xs \<Rightarrow> Inr xs
      | PDict d \<Rightarrow> Inr (map (\<lambda>kv. PStr (fst kv)) d)
      | PStr s \<Rightarrow> Inr (map (\<lambda>c. PStr [c]) s)
      | _ \<Rightarrow> Inl TypeError)"

text \<open>\<^verbatim>\<open>len(v)\<close>.\<close>

definition py_len :: "pyval \<Rightarrow> exn + nat" where
  "py_len v =
     (case v of
        PList xs \<Rightarrow> Inr (length xs)
      | PDict d \<Rightarrow> Inr (length d)
      | PStr s \<Rightarrow> Inr (length s)
      | _ \<Rightarrow> Inl TypeError)"

text \<open>\<^verbatim>\<open>v.get(k, default)\<close>: only a dict has the method.\<close>

definition py_get :: "pyval \<Rightarrow> string \<Rightarrow> pyval \<Rightarrow> exn + pyval" where
  "py_get v k dflt =
     (case v of
        PDict d \<Rightarrow> Inr (case map_of d k of None \<Rightarrow> dflt | Some x \<Rightarrow> x)
      | _ \<Rightarrow> Inl AttributeError)"

text \<open>Truth value of a value in a condition.\<close>

definition py_truthy :: "pyval \<Rightarrow> bool" where
  "py_truthy v =
     (case v of
        PNone \<Rightarrow> False
      | PBool b \<Rightarrow> b
      | PInt i \<Rightarrow> i \<noteq> 0
      | PFloat r \<Rightarrow> r \<noteq> 0
      | PStr s \<Rightarrow> s \<noteq> []
      | PList xs \<Rightarrow> xs \<noteq> []
      | PDict d \<Rightarrow> d \<noteq> [])"

text \<open>\<^verbatim>\<open>isinstance(v, (int, float))\<close>; \<^verbatim>\<open>bool\<close> is a subclass of \<^verbatim>\<open>int\<close>.\<close>

definition is_number :: "pyval \<Rightarrow> bool" where
  "is_number v = (case v of PInt i \<Rightarrow> True | PFloat r \<Rightarrow> True | PBool b \<Rightarrow> True | _ \<Rightarrow> False)"

section \<open>Postprocessor stage 2: \<^verbatim>\<open>remove_duplicates\<close>\<close>

text \<open>
  \<^verbatim>\<open>
  def create_hash(item):
      if isinstance(item, dict):
          return hash(frozenset(sorted(item.items())))
      return hash(str(item))

  for key in ['trends', 'strengths', 'weaknesses']:
      if key in analysis:
          seen = set()
          unique_list = []
          for item in analysis[key]:
              item_hash = create_hash(item)
              if item_hash not in seen:
                  seen.add(item_hash)
                  unique_list.append(item)
          analysis[key] = unique_list
  return analysis
  \<close>
  \<^verbatim>\<open>frozenset(...)\<close> hashes every \<^verbatim>\<open>(key, value)\<close> tuple, and a tuple hashes its
  components: a value that is a list or a dict is unhashable and \<^verbatim>\<open>TypeError\<close> is
  raised. (\<^verbatim>\<open>sorted\<close> before it cannot raise: the keys of one dict are distinct strings,
  so no two values are ever compared.) A hashable value is \<^verbatim>\<open>None\<close>, a number or a
  string; \<^verbatim>\<open>True\<close>, \<^verbatim>\<open>1\<close> and \<^verbatim>\<open>1.0\<close> are equal and hash alike.

  Idealisation: a hash is modelled by what is hashed, the frozenset of items or the
  string, so two hashes are equal exactly when the hashed values are equal (no
  collisions).
\<close>

datatype hval = HNone | HNum rat | HText string

datatype hkey = HFrozen "(string \<times> hval) set" | HStr string

definition py_hashable :: "pyval \<Rightarrow> hval option" where
  "py_hashable v =
     (case v of
        PNone \<Rightarrow> Some HNone
      | PBool b \<Rightarrow> Some (HNum (if b then 1 else 0))
      | PInt i \<Rightarrow> Some (HNum (of_int i))
      | PFloat r \<Rightarrow> Some (HNum r)
      | PStr s \<Rightarrow> Some (HText s)
      | PList xs \<Rightarrow> None
      | PDict d \<Rightarrow> None)"

fun hash_items :: "pydict \<Rightarrow> exn + (string \<times> hval) list" where
  "hash_items [] = Inr []"
| "hash_items ((k, v) # rest) =
     (case py_hashable v of
        None \<Rightarrow> Inl TypeError
      | Some h \<Rightarrow> (case hash_items rest of Inl e \<Rightarrow> Inl e | Inr hs \<Rightarrow> Inr ((k, h) # hs)))"

definition create_hash :: "builtins \<Rightarrow> pyval \<Rightarrow> exn + hkey" where
  "create_hash B item =
     (case item of
        PDict d \<Rightarrow> (case hash_items d of Inl e \<Rightarrow> Inl e | Inr hs \<Rightarrow> Inr (HFrozen (set hs)))
      | _ \<Rightarrow> Inr (HStr (py_str B item)))"

fun dedup_loop :: "builtins \<Rightarrow> pyval list \<Rightarrow> hkey set \<Rightarrow> pyval list \<Rightarrow> exn + pyval list" where
  "dedup_loop B [] seen unique_list = Inr unique_list"
| "dedup_loop B (item # rest) seen unique_list =
     (case create_hash B item of
        Inl e \<Rightarrow> Inl e
      | Inr item_hash \<Rightarrow>
          (if item_hash \<notin> seen
           then dedup_loop B rest (insert item_hash seen) (unique_list @ [item])
           else dedup_loop B rest seen unique_list))"

definition remove_duplicates_key :: "builtins \<Rightarrow> pydict \<Rightarrow> string \<Rightarrow> exn + pydict" where
  "remove_duplicates_key B analysis key =
     (case map_of analysis key of
        None \<Rightarrow> Inr analysis
      | Some v \<Rightarrow>
          (case py_iter v of
             Inl e \<Rightarrow> Inl e
           | Inr items \<Rightarrow>
               (case dedup_loop B items {} [] of
                  Inl e \<Rightarrow> Inl e
                | Inr unique_list \<Rightarrow> Inr (AList.update key (PList unique_list) analysis))))"

fun remove_duplicates_keys :: "builtins \<Rightarrow> pydict \<Rightarrow> string list \<Rightarrow> exn + pydict" where
  "remove_duplicates_keys B analysis [] = Inr analysis"
| "remove_duplicates_keys B analysis (key # keys) =
     (case remove_duplicates_key B analysis key of
        Inl e \<Rightarrow> Inl e
      | Inr analysis' \<Rightarrow> remove_duplicates_keys B analysis' keys)"

definition remove_duplicates :: "builtins \<Rightarrow> pydict \<Rightarrow> exn + pydict" where
  "remove_duplicates B analysis =
     remove_duplicates_keys B analysis [''trends'', ''strengths'', ''weaknesses'']"

section \<open>Postprocessor stages 3 to 6\<close>

text \<open>
  The two validators only \<^verbatim>\<open>print\<close>. What they print is modelled by a list of
  warnings (the formatted text is not). They receive the analysis dict by reference, so
  they are modelled as taking the analysis and returning it together with the warnings
  printed; an exception is \<open>Inl\<close>.
\<close>

datatype warning =
    MissingField pyval "string list"
  | InvalidMarketShare pyval
  | OnlyCompetitors nat
  | OnlyTrends nat
  | WeaknessesFound nat

text \<open>
  \<^verbatim>\<open>
  def validate_data_structure(self, analysis: dict):
      required_competitor_fields = {'name', 'market_share'}
      if 'competitors' in analysis:
          for competitor in analysis['competitors'].get('top_competitors', []):
              missing = required_competitor_fields - competitor.keys()
              if missing:
                  print(f"Missing field in competitors {competitor.get('name')}: {missing}")
              if not isinstance(competitor.get('market_share', 0), (int, float)):
                  print(f"Invalid value in market_share for {competitor.get('name')}")
  \<close>
\<close>

definition required_competitor_fields :: "string list" where
  "required_competitor_fields = [''name'', ''market_share'']"

definition check_competitor :: "pyval \<Rightarrow> exn + warning list" where
  "check_competitor competitor =
     (case competitor of
        PDict c \<Rightarrow>
          (let missing = filter (\<lambda>f. map_of c f = None) required_competitor_fields;
               name = (case map_of c ''name'' of None \<Rightarrow> PNone | Some n \<Rightarrow> n);
               share = (case map_of c ''market_share'' of None \<Rightarrow> PInt 0 | Some s \<Rightarrow> s)
           in Inr ((if missing \<noteq> [] then [MissingField name missing] else [])
                   @ (if \<not> is_number share then [InvalidMarketShare name] else [])))
      | _ \<Rightarrow> Inl AttributeError)"

fun competitors_loop ::
  "pydict \<Rightarrow> pyval list \<Rightarrow> warning list \<Rightarrow> exn + (pydict \<times> warning list)" where
  "competitors_loop analysis [] out = Inr (analysis, out)"
| "competitors_loop analysis (competitor # rest) out =
     (case check_competitor competitor of
        Inl e \<Rightarrow> Inl e
      | Inr ws \<Rightarrow> competitors_loop analysis rest (out @ ws))"

definition validate_data_structure :: "pydict \<Rightarrow> exn + (pydict \<times> warning list)" where
  "validate_data_structure analysis =
     (case map_of analysis ''competitors'' of
        None \<Rightarrow> Inr (analysis, [])
      | Some cs \<Rightarrow>
          (case py_get cs ''top_competitors'' (PList []) of
             Inl e \<Rightarrow> Inl e
           | Inr tc \<Rightarrow>
               (case py_iter tc of
                  Inl e \<Rightarrow> Inl e
                | Inr competitors \<Rightarrow> competitors_loop analysis competitors [])))"

text \<open>
  \<^verbatim>\<open>
  def strategic_sorting(self, analysis: dict) -> dict:
      def safe_get(value, key, default=0.0):
          if isinstance(value, dict):
              val = value.get(key, default)
          else:
              val = default
          try:
              return float(val) if val is not None else default
          except (TypeError, ValueError):
              return default

      if 'trends' in analysis:
          valid_trends = [t for t in analysis['trends']
                          if isinstance(t, dict) and 'impact_score' in t]
          valid_trends.sort(key=lambda x: safe_get(x, 'impact_score'), reverse=True)
          invalid_trends = [t for t in analysis['trends']
                            if not isinstance(t, dict) or 'impact_score' not in t]
          analysis['trends'] = valid_trends + invalid_trends
      return analysis
  \<close>
  \<^verbatim>\<open>float(v)\<close> is \<open>None\<close> where it raises \<^verbatim>\<open>TypeError\<close> or \<^verbatim>\<open>ValueError\<close>; as a float
  is the rational it denotes, the rounding of a large \<^verbatim>\<open>int\<close> to a double, the
  \<^verbatim>\<open>OverflowError\<close> of an \<^verbatim>\<open>int\<close> beyond the doubles and \<^verbatim>\<open>nan\<close> are not modelled. The sort is
  stable and \<^verbatim>\<open>reverse=True\<close> keeps the original order of elements with equal keys,
  which is \<open>sort_key\<close> on the negated key.
\<close>

definition py_float :: "builtins \<Rightarrow> pyval \<Rightarrow> rat option" where
  "py_float B v =
     (case v of
        PBool b \<Rightarrow> Some (if b then 1 else 0)
      | PInt i \<Rightarrow> Some (of_int i)
      | PFloat r \<Rightarrow> Some r
      | PStr s \<Rightarrow> py_float_of_str B s
      | _ \<Rightarrow> None)"

definition safe_get :: "builtins \<Rightarrow> pyval \<Rightarrow> string \<Rightarrow> rat \<Rightarrow> rat" where
  "safe_get B v key dflt =
     (let val = (case v of
                   PDict d \<Rightarrow> (case map_of d key of None \<Rightarrow> PFloat dflt | Some x \<Rightarrow> x)
                 | _ \<Rightarrow> PFloat dflt)
      in if val \<noteq> PNone
         then (case py_float B val of Some r \<Rightarrow> r | None \<Rightarrow> dflt)
         else dflt)"

definition has_impact_score :: "pyval \<Rightarrow> bool" where
  "has_impact_score t =
     (case t of PDict d \<Rightarrow> map_of d ''impact_score'' \<noteq> None | _ \<Rightarrow> False)"

definition strategic_sorting :: "builtins \<Rightarrow> pydict \<Rightarrow> exn + pydict" where
  "strategic_sorting B analysis =
     (case map_of analysis ''trends'' of
        None \<Rightarrow> Inr analysis
      | Some tr \<Rightarrow>
          (case py_iter tr of
             Inl e \<Rightarrow> Inl e
           | Inr ts \<Rightarrow>
               (let valid_trends = filter has_impact_score ts;
                    valid_trends' = sort_key (\<lambda>x. - safe_get B x ''impact_score'' 0) valid_trends;
                    invalid_trends = filter (\<lambda>t. \<not> has_impact_score t) ts
                in Inr (AList.update ''trends'' (PList (valid_trends' @ invalid_trends))
                          analysis))))"

text \<open>
  \<^verbatim>\<open>
  def validate_analysis_quality(self, analysis: dict):
      metrics = {'min_competitors': 2, 'min_trends': 2, 'max_weaknesses': 5}
      competitors = analysis.get('competitors', {}).get('top_competitors', [])
      if len(competitors) < metrics['min_competitors']:
          print(f"Warning: Only {len(competitors)} competitors identified")
      trends = analysis.get('trends', [])
      if len(trends) < metrics['min_trends']:
          print(f"Warning: Only {len(trends)} trends identified")
      weaknesses = analysis.get('swot', {}).get('weaknesses', {}).get('evidence', [])
      if len(weaknesses) > metrics['max_weaknesses']:
          print(f"Warning: {len(weaknesses)} weaknesses found")
  \<close>
  Each of the three checks is a step from the analysis and the warnings printed so far
  to the same pair, or an exception.
\<close>

definition dict_get :: "pydict \<Rightarrow> string \<Rightarrow> pyval \<Rightarrow> pyval" where
  "dict_get d k dflt = (case map_of d k of None \<Rightarrow> dflt | Some x \<Rightarrow> x)"

definition check_competitor_count ::
  "pydict \<times> warning list \<Rightarrow> exn + (pydict \<times> warning list)" where
  "check_competitor_count st =
     (case py_get (dict_get (fst st) ''competitors'' (PDict [])) ''top_competitors'' (PList []) of
        Inl e \<Rightarrow> Inl e
      | Inr competitors \<Rightarrow>
          (case py_len competitors of
             Inl e \<Rightarrow> Inl e
           | Inr n \<Rightarrow> Inr (fst st, snd st @ (if n < 2 then [OnlyCompetitors n] else []))))"

definition check_trend_count ::
  "pydict \<times> warning list \<Rightarrow> exn + (pydict \<times> warning list)" where
  "check_trend_count st =
     (case py_len (dict_get (fst st) ''trends'' (PList [])) of
        Inl e \<Rightarrow> Inl e
      | Inr n \<Rightarrow> Inr (fst st, snd st @ (if n < 2 then [OnlyTrends n] else [])))"

definition check_weakness_count ::
  "pydict \<times> warning list \<Rightarrow> exn + (pydict \<times> warning list)" where
  "check_weakness_count st =
     (case py_get (dict_get (fst st) ''swot'' (PDict [])) ''weaknesses'' (PDict []) of
        Inl e \<Rightarrow> Inl e
      | Inr w \<Rightarrow>
          (case py_get w ''evidence'' (PList []) of
             Inl e \<Rightarrow> Inl e
           | Inr weaknesses \<Rightarrow>
               (case py_len weaknesses of
                  Inl e \<Rightarrow> Inl e
                | Inr n \<Rightarrow>
                    Inr (fst st, snd st @ (if n > 5 then [WeaknessesFound n] else [])))))"

definition validate_analysis_quality :: "pydict \<Rightarrow> exn + (pydict \<times> warning list)" where
  "validate_analysis_quality analysis =
     (case check_competitor_count (analysis, []) of
        Inl e \<Rightarrow> Inl e
      | Inr st1 \<Rightarrow>
          (case check_trend_count st1 of
             Inl e \<Rightarrow> Inl e
           | Inr st2 \<Rightarrow> check_weakness_count st2))"

text \<open>
  \<^verbatim>\<open>
  def calculate_quality_score(self, analysis: dict) -> float:
      score = 0.3
      trend_count = len(analysis.get('trends', []))
      score += min(trend_count * 0.1, 0.3)
      return min(score, 1.0)
  \<close>
  The arithmetic is that of the rationals. (In binary floating point the results for 0,
  1, 2 and at least 3 trends are the doubles nearest to 0.3, 0.4, 0.5 and 0.6, the same
  numbers up to the representation: \<^verbatim>\<open>3 * 0.1\<close> is just above \<^verbatim>\<open>0.3\<close> and is cut by the
  inner \<^verbatim>\<open>min\<close>.)
\<close>

definition calculate_quality_score :: "pydict \<Rightarrow> exn + rat" where
  "calculate_quality_score analysis =
     (case py_len (dict_get analysis ''trends'' (PList [])) of
        Inl e \<Rightarrow> Inl e
      | Inr trend_count \<Rightarrow>
          (let score = 3 / 10;
               score' = score + min (of_nat trend_count * (1 / 10)) (3 / 10)
           in Inr (min score' 1)))"

text \<open>
  \<^verbatim>\<open>
  def add_metadata(self, analysis: dict) -> dict:
      analysis['metadata'] = {
          'processing_date': datetime.now(timezone.utc).isoformat(),
          'data_sources': ['web_search'],
          'model_version': 'gpt-4-1106-preview',
          'quality_score': self.calculate_quality_score(analysis)
      }
      return analysis
  \<close>
  The clock is a parameter: \<open>now\<close> is the ISO-8601 text of the current time.
\<close>

definition add_metadata :: "string \<Rightarrow> pydict \<Rightarrow> exn + pydict" where
  "add_metadata now analysis =
     (case calculate_quality_score analysis of
        Inl e \<Rightarrow> Inl e
      | Inr q \<Rightarrow>
          Inr (AList.update ''metadata''
                 (PDict [(''processing_date'', PStr now),
                         (''data_sources'', PList [PStr ''web_search'']),
                         (''model_version'', PStr ''gpt-4-1106-preview''),
                         (''quality_score'', PFloat q)])
                 analysis))"

text \<open>
  \<^verbatim>\<open>
  def postprocess_analysis(self, analysis: dict) -> dict:
      analysis = self.normalize_texts(analysis)
      analysis = self.remove_duplicates(analysis)
      self.validate_data_structure(analysis)
      analysis = self.strategic_sorting(analysis)
      self.validate_analysis_quality(analysis)
      analysis = self.add_metadata(analysis)
      return analysis
  \<close>
  The result is the final analysis and everything printed on the way.
\<close>

definition postprocess_analysis ::
  "builtins \<Rightarrow> string \<Rightarrow> pydict \<Rightarrow> exn + (pydict \<times> warning list)" where
  "postprocess_analysis B now analysis =
     (case remove_duplicates B (normalize_texts analysis) of
        Inl e \<Rightarrow> Inl e
      | Inr a2 \<Rightarrow>
          (case validate_data_structure a2 of
             Inl e \<Rightarrow> Inl e
           | Inr (a3, out1) \<Rightarrow>
               (case strategic_sorting B a3 of
                  Inl e \<Rightarrow> Inl e
                | Inr a4 \<Rightarrow>
                    (case validate_analysis_quality a4 of
                       Inl e \<Rightarrow> Inl e
                     | Inr (a5, out2) \<Rightarrow>
                         (case add_metadata now a5 of
                            Inl e \<Rightarrow> Inl e
                          | Inr a6 \<Rightarrow> Inr (a6, out1 @ out2))))))"

text \<open>
  For the statements: an analysis has the shape the validators expect when
  \<^verbatim>\<open>competitors\<close>, if present, is a mapping whose \<^verbatim>\<open>top_competitors\<close>, if present, is a
  list of mappings; \<^verbatim>\<open>trends\<close>, if present, has a length; and \<^verbatim>\<open>swot\<close>, if present, is a
  mapping whose \<^verbatim>\<open>weaknesses\<close>, if present, is a mapping whose \<^verbatim>\<open>evidence\<close>, if present,
  has a length.
\<close>

definition is_sized :: "pyval \<Rightarrow> bool" where
  "is_sized v = (case v of PList xs \<Rightarrow> True | PDict d \<Rightarrow> True | PStr s \<Rightarrow> True | _ \<Rightarrow> False)"

definition is_mapping_list :: "pyval \<Rightarrow> bool" where
  "is_mapping_list v = (case v of PList xs \<Rightarrow> list_all is_mapping xs | _ \<Rightarrow> False)"

definition competitors_ok :: "pydict \<Rightarrow> bool" where
  "competitors_ok a =
     (let c = dict_get a ''competitors'' (PDict [])
      in is_mapping c \<and> is_mapping_list (dict_get (items_of c) ''top_competitors'' (PList [])))"

definition trends_ok :: "pydict \<Rightarrow> bool" where
  "trends_ok a = is_sized (dict_get a ''trends'' (PList []))"

definition swot_ok :: "pydict \<Rightarrow> bool" where
  "swot_ok a =
     (let s = dict_get a ''swot'' (PDict []);
          w = dict_get (items_of s) ''weaknesses'' (PDict [])
      in is_mapping s \<and> is_mapping w \<and> is_sized (dict_get (items_of w) ''evidence'' (PList [])))"

definition schema_shaped :: "pydict \<Rightarrow> bool" where
  "schema_shaped a = (competitors_ok a \<and> trends_ok a \<and> swot_ok a)"

definition shaped_example :: pydict where
  "shaped_example =
     [(''trends'', PList [PStr ''t1'']),
      (''competitors'', PDict [(''top_competitors'',
          PList [PDict [(''name'', PStr ''Acme''), (''market_share'', PStr ''high'')]])]),
      (''swot'', PDict [(''weaknesses'', PDict [(''evidence'', PList [])])])]"

section \<open>Preprocessor: \<^verbatim>\<open>preprocess_data\<close>\<close>

text \<open>
  \<^verbatim>\<open>
  def preprocess_data(self, raw_data: dict) -> dict:
      data = {
          'news': self.extract_text(raw_data.get('market_news', {}).get('articles', [])),
          'search_results': self.process_search_results(raw_data.get('search_results', {}))
      }
      return data

  def extract_text(self, articles: List[dict]) -> List[str]:
      return [f"{a['title']}: {a['description']}" for a in articles if a.get('description')]

  def process_search_results(self, results: dict) -> str:
      results = '\n'.join(f'{r.get("title", "")}: {r.get("snippet", "")}'
                          for r in results.get('organic_results', [])[:20])
      return results
  \<close>
  The raw data is what the collector got from two web services as JSON: nothing is
  known of the shape below the top-level dict, so every step is on untyped values.
  \<^verbatim>\<open>a.get('description')\<close> needs a dict, \<^verbatim>\<open>a['title']\<close> raises \<^verbatim>\<open>KeyError\<close> on a
  missing key. \<^verbatim>\<open>v[:20]\<close> is the prefix of a list or a string; on a dict it is a lookup
  of the slice as a key (\<^verbatim>\<open>KeyError\<close>; the file needs Python 3.12 for the f-string of
  \<^verbatim>\<open>merge_responses\<close>, where a slice is hashable) and on anything else \<^verbatim>\<open>TypeError\<close>.
\<close>

definition extract_one :: "builtins \<Rightarrow> pyval \<Rightarrow> exn + string option" where
  "extract_one B a =
     (case py_get a ''description'' PNone of
        Inl e \<Rightarrow> Inl e
      | Inr d \<Rightarrow>
          (if py_truthy d
           then (case map_of (items_of a) ''title'' of
                   None \<Rightarrow> Inl KeyError
                 | Some t \<Rightarrow> Inr (Some (py_str B t @ '': '' @ py_str B d)))
           else Inr None))"

fun extract_loop :: "builtins \<Rightarrow> pyval list \<Rightarrow> exn + string list" where
  "extract_loop B [] = Inr []"
| "extract_loop B (a # rest) =
     (case extract_one B a of
        Inl e \<Rightarrow> Inl e
      | Inr r \<Rightarrow>
          (case extract_loop B rest of
             Inl e \<Rightarrow> Inl e
           | Inr xs \<Rightarrow> Inr ((case r of None \<Rightarrow> [] | Some x \<Rightarrow> [x]) @ xs)))"

definition extract_text :: "builtins \<Rightarrow> pyval \<Rightarrow> exn + string list" where
  "extract_text B articles =
     (case py_iter articles of Inl e \<Rightarrow> Inl e | Inr xs \<Rightarrow> extract_loop B xs)"

definition py_prefix :: "nat \<Rightarrow> pyval \<Rightarrow> exn + pyval" where
  "py_prefix n v =
     (case v of
        PList xs \<Rightarrow> Inr (PList (take n xs))
      | PStr s \<Rightarrow> Inr (PStr (take n s))
      | PDict d \<Rightarrow> Inl KeyError
      | _ \<Rightarrow> Inl TypeError)"

definition search_line :: "builtins \<Rightarrow> pyval \<Rightarrow> exn + string" where
  "search_line B r =
     (case py_get r ''title'' (PStr []) of
        Inl e \<Rightarrow> Inl e
      | Inr t \<Rightarrow>
          (case py_get r ''snippet'' (PStr []) of
             Inl e \<Rightarrow> Inl e
           | Inr sn \<Rightarrow> Inr (py_str B t @ '': '' @ py_str B sn)))"

fun search_lines :: "builtins \<Rightarrow> pyval list \<Rightarrow> exn + string list" where
  "search_lines B [] = Inr []"
| "search_lines B (r # rest) =
     (case search_line B r of
        Inl e \<Rightarrow> Inl e
      | Inr l \<Rightarrow> (case search_lines B rest of Inl e \<Rightarrow> Inl e | Inr ls \<Rightarrow> Inr (l # ls)))"

definition process_search_results :: "builtins \<Rightarrow> pyval \<Rightarrow> exn + string" where
  "process_search_results B results =
     (case py_get results ''organic_results'' (PList []) of
        Inl e \<Rightarrow> Inl e
      | Inr organic \<Rightarrow>
          (case py_prefix 20 organic of
             Inl e \<Rightarrow> Inl e
           | Inr first20 \<Rightarrow>
               (case py_iter first20 of
                  Inl e \<Rightarrow> Inl e
                | Inr rs \<Rightarrow>
                    (case search_lines B rs of
                       Inl e \<Rightarrow> Inl e
                     | Inr ls \<Rightarrow> Inr (intercalate [CHR ''\<newline>''] ls)))))"

definition preprocess_data :: "builtins \<Rightarrow> pydict \<Rightarrow> exn + preprocessed" where
  "preprocess_data B raw_data =
     (case py_get (dict_get raw_data ''market_news'' (PDict [])) ''articles'' (PList []) of
        Inl e \<Rightarrow> Inl e
      | Inr articles \<Rightarrow>
          (case extract_text B articles of
             Inl e \<Rightarrow> Inl e
           | Inr ns \<Rightarrow>
               (case process_search_results B (dict_get raw_data ''search_results'' (PDict [])) of
                  Inl e \<Rightarrow> Inl e
                | Inr sr \<Rightarrow> Inr \<lparr>news = ns, search_results = sr\<rparr>)))"

section \<open>Structured analysis invoker\<close>

text \<open>
  The language model service is outside the repository. One call,
  \<^verbatim>\<open>self.client.chat.completions.create(...)\<close> followed by
  \<^verbatim>\<open>json.loads(response.choices[0].message.content)\<close>, is a step of an oracle \<open>L\<close>: from
  its state, the system prompt and the user message to the parsed JSON value or the
  exception raised (by the network call or by the parser), and its next state.
\<close>

type_synonym 's llm = "'s \<Rightarrow> string \<Rightarrow> string \<Rightarrow> (exn + pyval) \<times> 's"

text \<open>
  \<^verbatim>\<open>
  @retry(stop=stop_after_attempt(3), wait=wait_exponential(multiplier=1, min=4, max=10))
  def structured_analysis(self, data: dict, system_prompt: str, user_prompt: str) -> dict:
      chunks = self.chunk_data(data)
      responses = []
      for chunk in chunks:
          response = self.client.chat.completions.create(
              model='gpt-4-1106-preview',
              messages=[
                  {'role': 'system', 'content': system_prompt},
                  {'role': 'user', 'content': f'{user_prompt}\n\nRelevant data:\n{chunk}'}
              ],
              response_format={'type': 'json_object'},
              temperature=0.3
          )
          responses.append(json.loads(response.choices[0].message.content))
      return self.merge_responses(responses)
  \<close>
  \<open>structured_analysis_body\<close> is the function under the decorator.
\<close>

fun call_chunks ::
  "builtins \<Rightarrow> 's llm \<Rightarrow> string \<Rightarrow> string \<Rightarrow> pyval list \<Rightarrow> pyval list \<Rightarrow> 's
     \<Rightarrow> (exn + pyval list) \<times> 's" where
  "call_chunks B L system_prompt user_prompt [] responses s = (Inr responses, s)"
| "call_chunks B L system_prompt user_prompt (chunk # rest) responses s =
     (case L s system_prompt
              (user_prompt @ [CHR ''\<newline>'', CHR ''\<newline>''] @ ''Relevant data:''
                 @ [CHR ''\<newline>''] @ py_str B chunk) of
        (Inl e, s') \<Rightarrow> (Inl e, s')
      | (Inr response, s') \<Rightarrow>
          call_chunks B L system_prompt user_prompt rest (responses @ [response]) s')"

definition structured_analysis_body ::
  "builtins \<Rightarrow> 's llm \<Rightarrow> preprocessed \<Rightarrow> string \<Rightarrow> string \<Rightarrow> 's \<Rightarrow> (exn + pydict) \<times> 's" where
  "structured_analysis_body B L data system_prompt user_prompt s =
     (case chunk_data data 5 of
        Inl e \<Rightarrow> (Inl e, s)
      | Inr chunks \<Rightarrow>
          (case call_chunks B L system_prompt user_prompt chunks [] s of
             (Inl e, s') \<Rightarrow> (Inl e, s')
           | (Inr responses, s') \<Rightarrow> (merge_responses B responses, s')))"

text \<open>
  The decorator is \<^verbatim>\<open>tenacity.retry\<close>, a third-party library. As its documentation has
  it: the function is called; when it raises, \<^verbatim>\<open>stop_after_attempt(n)\<close> stops once the
  number of the attempt just made is at least \<open>n\<close>, and \<^verbatim>\<open>RetryError\<close> (holding the last
  exception; \<^verbatim>\<open>reraise\<close> is not set) is raised to the caller; otherwise the decorator
  sleeps for \<^verbatim>\<open>wait(attempt_number)\<close> seconds and calls the function again.
  \<^verbatim>\<open>wait_exponential(multiplier, min, max)\<close> waits
  \<^verbatim>\<open>max(max(0, min), min(multiplier * 2 ** (attempt_number - 1), max))\<close>. An outcome
  records what the caller gets, the oracle's state, the seconds slept and the number of
  attempts made.
\<close>

definition wait_exponential :: "nat \<Rightarrow> nat \<Rightarrow> nat \<Rightarrow> nat \<Rightarrow> nat" where
  "wait_exponential multiplier mn mx attempt_number =
     max (max 0 mn) (min (multiplier * 2 ^ (attempt_number - 1)) mx)"

record ('a, 's) outcome =
  returned :: "exn + 'a"
  state_after :: 's
  slept :: nat
  attempts :: nat

function retry_loop ::
  "nat \<Rightarrow> (nat \<Rightarrow> nat) \<Rightarrow> ('s \<Rightarrow> (exn + 'a) \<times> 's) \<Rightarrow> nat \<Rightarrow> 's \<Rightarrow> nat \<Rightarrow> ('a, 's) outcome" where
  "retry_loop max_attempts wait f attempt_number s slept_so_far =
     (case f s of
        (Inr v, s') \<Rightarrow>
          \<lparr>returned = Inr v, state_after = s', slept = slept_so_far, attempts = attempt_number\<rparr>
      | (Inl e, s') \<Rightarrow>
          (if attempt_number \<ge> max_attempts
           then \<lparr>returned = Inl (RetryError e), state_after = s', slept = slept_so_far,
                 attempts = attempt_number\<rparr>
           else retry_loop max_attempts wait f (attempt_number + 1) s'
                  (slept_so_far + wait attempt_number)))"
  by pat_completeness auto
termination
  by (relation "measure (\<lambda>(m, w, f, n, s, sl). m - n)") auto

declare retry_loop.simps [simp del]

definition structured_analysis ::
  "builtins \<Rightarrow> 's llm \<Rightarrow> preprocessed \<Rightarrow> string \<Rightarrow> string \<Rightarrow> 's \<Rightarrow> (pydict, 's) outcome" where
  "structured_analysis B L data system_prompt user_prompt s =
     retry_loop 3 (wait_exponential 1 4 10)
       (structured_analysis_body B L data system_prompt user_prompt) 1 s 0"

section \<open>Analysis orchestrator: \<^verbatim>\<open>analyze_trends\<close>\<close>

text \<open>
  The prompts of \<^verbatim>\<open>__init__\<close> (\<^verbatim>\<open>self.analysis_prompts\<close>), of \<^verbatim>\<open>get_system_prompt\<close>, of
  \<^verbatim>\<open>analyze_competitors\<close> and of \<^verbatim>\<open>swot_analysis\<close>, character by character.
\<close>

definition prompt_trends :: string where
  \<open>prompt_trends =
     ''Identify key market trends supported by quantitative and qualitative data''\<close>

definition prompt_competitors :: string where
  \<open>prompt_competitors =
     ''Analyze key competitors considering:\<newline>'' @
     ''            - Market share\<newline>'' @
     ''            - Competitive advantages\<newline>'' @
     ''            - Recent strategic moves\<newline>'' @
     ''            - key financials''\<close>

definition prompt_swot :: string where
  \<open>prompt_swot =
     ''Conduct a detailed SWOT analysis considering:\<newline>'' @
     ''            1. Target market strengths\<newline>'' @
     ''            2. Current weaknesses\<newline>'' @
     ''            3. Emerging opportunities\<newline>'' @
     ''            4. Competitive threats''\<close>

definition system_prompt_trends :: string where
  \<open>system_prompt_trends =
     ''Generates a trend analysis in JSON format:\<newline>'' @
     ''            {\<newline>'' @
     ''                "trends": [{\<newline>'' @
     ''                    "name": str,\<newline>'' @
     ''                    "description": str,\<newline>'' @
     ''                    "evidence": [str],\<newline>'' @
     ''                    "impact_score": float\<newline>'' @
     ''                }],\<newline>'' @
     ''                "summary": str\<newline>'' @
     ''            }''\<close>

definition system_prompt_competitors :: string where
  \<open>system_prompt_competitors =
     ''Returns JSON with:\<newline>'' @
     ''            {\<newline>'' @
     ''                "top_competitors": [{\<newline>'' @
     ''                    "name": str,\<newline>'' @
     ''                    "market_share": float,\<newline>'' @
     ''                    "strengths": [str],\<newline>'' @
     ''                    "weaknesses": [str],\<newline>'' @
     ''                    "recent_activity": [str]\<newline>'' @
     ''                }],\<newline>'' @
     ''                "competitive_landscape": str\<newline>'' @
     ''            }''\<close>

definition system_prompt_swot :: string where
  \<open>system_prompt_swot =
     ''Returns SWOT in JSON format:\<newline>'' @
     ''            {\<newline>'' @
     ''                "strengths": { "description": str, "evidence": [str] },\<newline>'' @
     ''                "weaknesses": { "description": str, "evidence": [str] },\<newline>'' @
     ''                "opportunities": { "description": str, "evidence": [str] },\<newline>'' @
     ''                "threats": { "description": str, "evidence": [str] }\<newline>'' @
     ''            }''\<close>

definition competitors_system_prompt :: string where
  \<open>competitors_system_prompt =
     ''You are a senior strategic analyst. Return JSON with:\<newline>'' @
     ''        {\<newline>'' @
     ''            "top_competitors": [{\<newline>'' @
     ''                "name": str,\<newline>'' @
     ''                "market_share": float,\<newline>'' @
     ''                "strengths": [str],\<newline>'' @
     ''                "weaknesses": [str],\<newline>'' @
     ''                "recent_activity": [str]\<newline>'' @
     ''            }],\<newline>'' @
     ''            "competitive_landscape": str\<newline>'' @
     ''        }''\<close>

definition swot_system_prompt :: string where
  \<open>swot_system_prompt =
     ''Returns SWOT in JSON format:\<newline>'' @
     ''        {\<newline>'' @
     ''            "strengths": { "description": str, "evidence": [str] },\<newline>'' @
     ''            "weaknesses": { "description": str, "evidence": [str] },\<newline>'' @
     ''            "opportunities": { "description": str, "evidence": [str] },\<newline>'' @
     ''            "threats": { "description": str, "evidence": [str] }\<newline>'' @
     ''        }''\<close>

definition get_system_prompt :: "string \<Rightarrow> string" where
  "get_system_prompt analysis_type =
     (if analysis_type = ''trends'' then system_prompt_trends
      else if analysis_type = ''competitors'' then system_prompt_competitors
      else if analysis_type = ''swot'' then system_prompt_swot
      else ''Parses data and returns results in JSON format'')"

text \<open>
  \<^verbatim>\<open>
  def analyze_with_fallback(self, data, prompt, analysis_type):
      return self.structured_analysis(data=data,
          system_prompt=self.get_system_prompt(analysis_type), user_prompt=prompt)

  def analyze_competitors(self, data: dict) -> dict:
      system_prompt = """You are a senior strategic analyst. Return JSON with: ..."""
      return self.structured_analysis(data=data, system_prompt=system_prompt,
          user_prompt=self.analysis_prompts['competitors'])

  def swot_analysis(self, data: dict) -> dict:
      system_prompt = """Returns SWOT in JSON format: ..."""
      return self.structured_analysis(data=data, system_prompt=system_prompt,
          user_prompt=self.analysis_prompts["swot"])
  \<close>
\<close>

definition analyze_with_fallback ::
  "builtins \<Rightarrow> 's llm \<Rightarrow> preprocessed \<Rightarrow> string \<Rightarrow> string \<Rightarrow> 's \<Rightarrow> (pydict, 's) outcome" where
  "analyze_with_fallback B L data prompt analysis_type s =
     structured_analysis B L data (get_system_prompt analysis_type) prompt s"

definition analyze_competitors ::
  "builtins \<Rightarrow> 's llm \<Rightarrow> preprocessed \<Rightarrow> 's \<Rightarrow> (pydict, 's) outcome" where
  "analyze_competitors B L data s =
     structured_analysis B L data competitors_system_prompt prompt_competitors s"

definition swot_analysis ::
  "builtins \<Rightarrow> 's llm \<Rightarrow> preprocessed \<Rightarrow> 's \<Rightarrow> (pydict, 's) outcome" where
  "swot_analysis B L data s =
     structured_analysis B L data swot_system_prompt prompt_swot s"

text \<open>
  \<^verbatim>\<open>
  def analyze_trends(self, data: dict) -> dict:
      processed_data = self.preprocess_data(data)
      analysis = {
          'trends': self.analyze_with_fallback(data=processed_data,
              prompt=self.analysis_prompts['trends'], analysis_type='trends'),
          'competitors': self.analyze_competitors(processed_data),
          'swot': self.swot_analysis(processed_data)
      }
      return self.postprocess_analysis(analysis)
  \<close>
  The three analyses run in this order, each from the oracle state the one before left.
  The result is the final analysis with the warnings printed, or the exception.
\<close>

definition analyze_trends ::
  "builtins \<Rightarrow> 's llm \<Rightarrow> string \<Rightarrow> pydict \<Rightarrow> 's \<Rightarrow> exn + (pydict \<times> warning list)" where
  "analyze_trends B L now raw_data s =
     (case preprocess_data B raw_data of
        Inl e \<Rightarrow> Inl e
      | Inr processed_data \<Rightarrow>
          (let o1 = analyze_with_fallback B L processed_data prompt_trends ''trends'' s
           in case returned o1 of
                Inl e \<Rightarrow> Inl e
              | Inr t \<Rightarrow>
                  (let o2 = analyze_competitors B L processed_data (state_after o1)
                   in case returned o2 of
                        Inl e \<Rightarrow> Inl e
                      | Inr c \<Rightarrow>
                          (let o3 = swot_analysis B L processed_data (state_after o2)
                           in case returned o3 of
                                Inl e \<Rightarrow> Inl e
                              | Inr w \<Rightarrow>
                                  postprocess_analysis B now
                                    [(''trends'', PDict t), (''competitors'', PDict c),
                                     (''swot'', PDict w)]))))"

text \<open>
  For the witnesses: an oracle whose state counts its calls and which fails on the first
  two calls, one that never answers with valid JSON, and a preprocessed value with one
  search line (so that one attempt is one call).
\<close>

definition flaky_llm :: "nat llm" where
  "flaky_llm s system_prompt user_message =
     (if s < 2 then Inl APIError else Inr (PDict [(''summary'', PStr ''ok'')]), s + 1)"

definition garbling_llm :: "nat llm" where
  "garbling_llm s system_prompt user_message = (Inl JSONDecodeError, s + 1)"

definition one_line :: preprocessed where
  "one_line = \<lparr>news = [], search_results = ''x''\<rparr>"

text \<open>
  For the end-to-end example of the specification: raw data with 6 news articles (all
  with a description) and 3 search results, and a stub of the language model that
  answers with one fixed JSON value for each analysis type, of the schema the system
  prompt of that type asks for.
\<close>

definition raw_example :: pydict where
  "raw_example =
     [(''market_news'', PDict [(''articles'', PList
         [PDict [(''title'', PStr ''t1''), (''description'', PStr ''d1'')],
          PDict [(''title'', PStr ''t2''), (''description'', PStr ''d2'')],
          PDict [(''title'', PStr ''t3''), (''description'', PStr ''d3'')],
          PDict [(''title'', PStr ''t4''), (''description'', PStr ''d4'')],
          PDict [(''title'', PStr ''t5''), (''description'', PStr ''d5'')],
          PDict [(''title'', PStr ''t6''), (''description'', PStr ''d6'')]])]),
      (''search_results'', PDict [(''organic_results'', PList
         [PDict [(''title'', PStr ''r1''), (''snippet'', PStr ''s1'')],
          PDict [(''title'', PStr ''r2''), (''snippet'', PStr ''s2'')],
          PDict [(''title'', PStr ''r3''), (''snippet'', PStr ''s3'')]])])]"

definition stub_trends :: pyval where
  "stub_trends =
     PDict [(''trends'', PList
              [PDict [(''name'', PStr ''slow''), (''description'', PStr ''minor''),
                      (''evidence'', PList [PStr ''e1'']), (''impact_score'', PFloat (2 / 10))],
               PDict [(''name'', PStr ''fast''), (''description'', PStr ''major''),
                      (''evidence'', PList [PStr ''e2'']), (''impact_score'', PFloat (9 / 10))]]),
            (''summary'', PStr ''growing'')]"

definition stub_competitors :: pyval where
  "stub_competitors =
     PDict [(''top_competitors'', PList
              [PDict [(''name'', PStr ''Acme''), (''market_share'', PFloat (4 / 10)),
                      (''strengths'', PList [PStr ''brand'']),
                      (''weaknesses'', PList [PStr ''cost'']),
                      (''recent_activity'', PList [PStr ''merger''])]]),
            (''competitive_landscape'', PStr ''crowded'')]"

definition stub_swot :: pyval where
  "stub_swot =
     PDict [(''strengths'', PDict [(''description'', PStr ''s''), (''evidence'', PList [PStr ''a''])]),
            (''weaknesses'', PDict [(''description'', PStr ''w''), (''evidence'', PList [PStr ''b''])]),
            (''opportunities'', PDict [(''description'', PStr ''o''), (''evidence'', PList [PStr ''c''])]),
            (''threats'', PDict [(''description'', PStr ''t''), (''evidence'', PList [PStr ''d''])])]"

definition stub_llm :: "unit llm" where
  "stub_llm s system_prompt user_message =
     (Inr (if system_prompt = system_prompt_trends then stub_trends
           else if system_prompt = competitors_system_prompt then stub_competitors
           else stub_swot), s)"

definition pre_example :: preprocessed where
  "pre_example =
     \<lparr>news = [''t1: d1'', ''t2: d2'', ''t3: d3'', ''t4: d4'', ''t5: d5'', ''t6: d6''],
      search_results = ''r1: s1'' @ [CHR ''\<newline>''] @ ''r2: s2'' @ [CHR ''\<newline>'']
                       @ ''r3: s3''\<rparr>"

definition merged_trends :: pydict where
  "merged_trends =
     [(''trends'', PList
         [PDict [(''name'', PStr ''slow''), (''description'', PStr ''minor''),
                 (''evidence'', PList [PStr ''e1'']), (''impact_score'', PFloat (2 / 10))],
          PDict [(''name'', PStr ''fast''), (''description'', PStr ''major''),
                 (''evidence'', PList [PStr ''e2'']), (''impact_score'', PFloat (9 / 10))],
          PDict [(''name'', PStr ''slow''), (''description'', PStr ''minor''),
                 (''evidence'', PList [PStr ''e1'']), (''impact_score'', PFloat (2 / 10))],
          PDict [(''name'', PStr ''fast''), (''description'', PStr ''major''),
                 (''evidence'', PList [PStr ''e2'']), (''impact_score'', PFloat (9 / 10))]]),
      (''summary'', PStr (''growing'' @ [CHR ''\<newline>''] @ ''growing''))]"

definition merged_competitors :: pydict where
  "merged_competitors =
     [(''top_competitors'', PList
         [PDict [(''name'', PStr ''Acme''), (''market_share'', PFloat (4 / 10)),
                 (''strengths'', PList [PStr ''brand'']),
                 (''weaknesses'', PList [PStr ''cost'']),
                 (''recent_activity'', PList [PStr ''merger''])],
          PDict [(''name'', PStr ''Acme''), (''market_share'', PFloat (4 / 10)),
                 (''strengths'', PList [PStr ''brand'']),
                 (''weaknesses'', PList [PStr ''cost'']),
                 (''recent_activity'', PList [PStr ''merger''])]]),
      (''competitive_landscape'', PStr (''crowded'' @ [CHR ''\<newline>''] @ ''crowded''))]"

definition final_example :: "string \<Rightarrow> pydict" where
  "final_example now =
     [(''trends'', PList [PStr ''trends'', PStr ''summary'']),
      (''competitors'', PDict merged_competitors),
      (''swot'', stub_swot),
      (''metadata'',
        PDict [(''processing_date'', PStr now),
               (''data_sources'', PList [PStr ''web_search'']),
               (''model_version'', PStr ''gpt-4-1106-preview''),
               (''quality_score'', PFloat (5 / 10))])]"

definition is_str :: "pyval \<Rightarrow> bool" where
  "is_str v = (case v of PStr s \<Rightarrow> True | _ \<Rightarrow> False)"

section \<open>Properties of \<^verbatim>\<open>normalize_texts\<close>\<close>

lemma map_of_process_items:
  "map_of (map (\<lambda>(k, v). (k, process_value v)) d) k = map_option process_value (map_of d k)"
  by (induction d) auto

lemma leaf_at_process_value:
  "leaf_at v p = Some (PStr s) \<Longrightarrow>
   leaf_at (process_value v) p = Some (PStr (py_capitalize (py_strip s)))"
proof (induction v p arbitrary: s rule: leaf_at.induct)
  case (1 v)
  then show ?case by simp
next
  case (2 d k p)
  then show ?case
    by (auto simp: map_of_process_items split: option.splits)
next
  case (3 xs i p)
  then show ?case by (auto split: if_splits)
qed simp_all

lemma map_of_normalize_field:
  "map_of (normalize_field a f) k =
     (if k = f then map_option process_value (map_of a k) else map_of a k)"
  by (auto simp: normalize_field_def update_conv' split: option.splits)

lemma map_of_normalize_texts:
  "map_of (normalize_texts a) k =
     (if k \<in> set text_fields then map_option process_value (map_of a k) else map_of a k)"
  by (simp add: normalize_texts_def text_fields_def map_of_normalize_field)

lemma py_strip_decomp:
  "\<exists>l r. s = l @ py_strip s @ r \<and> list_all py_isspace l \<and> list_all py_isspace r"
proof -
  define d where "d = dropWhile py_isspace s"
  have "rev (takeWhile py_isspace (rev d) @ dropWhile py_isspace (rev d)) = rev (rev d)"
    by (simp only: takeWhile_dropWhile_id)
  then have "rev (dropWhile py_isspace (rev d)) @ rev (takeWhile py_isspace (rev d)) = d"
    by (simp only: rev_append rev_rev_ident)
  then have d: "d = py_strip s @ rev (takeWhile py_isspace (rev d))"
    unfolding py_strip_def d_def by simp
  have "s = takeWhile py_isspace s @ d"
    by (simp add: d_def)
  with d have "s = takeWhile py_isspace s @ py_strip s @ rev (takeWhile py_isspace (rev d))"
    by simp
  moreover have "list_all py_isspace (takeWhile py_isspace s)"
    by (simp add: list_all_iff) (meson set_takeWhileD)
  moreover have "list_all py_isspace (rev (takeWhile py_isspace (rev d)))"
    by (simp add: list_all_iff) (meson set_takeWhileD)
  ultimately show ?thesis by blast
qed

lemma py_strip_ends:
  "py_strip s = [] \<or> (\<not> py_isspace (hd (py_strip s)) \<and> \<not> py_isspace (last (py_strip s)))"
proof (cases "py_strip s = []")
  case True
  then show ?thesis by simp
next
  case False
  define d where "d = dropWhile py_isspace s"
  define e where "e = dropWhile py_isspace (rev d)"
  have ps: "py_strip s = rev e"
    by (simp add: py_strip_def d_def e_def)
  with False have ne: "e \<noteq> []" by simp
  then have "\<not> py_isspace (hd e)"
    unfolding e_def by (metis hd_dropWhile)
  then have l: "\<not> py_isspace (last (py_strip s))"
    using ne by (simp add: ps last_rev)
  have "set e \<subseteq> set (rev d)"
    unfolding e_def by (meson set_dropWhileD subsetI)
  then have "last e \<in> set d"
    using ne last_in_set by fastforce
  have dne: "d \<noteq> []" using ne e_def by auto
  then have hd: "\<not> py_isspace (hd d)"
    unfolding d_def by (metis hd_dropWhile)
  have "rev (takeWhile py_isspace (rev d) @ e) = rev (rev d)"
    unfolding e_def by (simp only: takeWhile_dropWhile_id)
  then have "d = rev e @ rev (takeWhile py_isspace (rev d))"
    by (simp only: rev_append rev_rev_ident)
  then have "hd d = hd (rev e)"
    using ne by (metis hd_append2 rev_is_Nil_conv)
  with hd have "\<not> py_isspace (hd (py_strip s))"
    by (simp add: ps)
  with l show ?thesis by simp
qed

text \<open>
  Claim C2, as the code has it. \<^verbatim>\<open>str.capitalize\<close> lowercases everything after the
  first character, so the casing of the rest is not kept. What holds: for every ASCII
  string leaf \<open>s\<close> found at a path \<open>p\<close> under one of the top-level fields \<^verbatim>\<open>trends\<close>,
  \<^verbatim>\<open>competitive_landscape\<close>, \<^verbatim>\<open>summary\<close>, the output has at the same path the string
  obtained from \<open>s\<close> by removing the leading and trailing whitespace, upper-casing the
  first character and lower-casing every other character.
\<close>

theorem normalize_texts_string_leaf:
  assumes "f \<in> set text_fields"
    and "map_of analysis f = Some v"
    and "leaf_at v p = Some (PStr s)"
    and "is_ascii s"
  shows "\<exists>v' l r.
           map_of (normalize_texts analysis) f = Some v'
         \<and> leaf_at v' p =
             Some (PStr (case py_strip s of [] \<Rightarrow> []
                         | c # cs \<Rightarrow> py_upper_char c # map py_lower_char cs))
         \<and> s = l @ py_strip s @ r \<and> list_all py_isspace l \<and> list_all py_isspace r
         \<and> (py_strip s = [] \<or>
              (\<not> py_isspace (hd (py_strip s)) \<and> \<not> py_isspace (last (py_strip s))))"
proof -
  have 1: "map_of (normalize_texts analysis) f = Some (process_value v)"
    using assms(1,2) by (simp add: map_of_normalize_texts)
  have 2: "leaf_at (process_value v) p =
             Some (PStr (case py_strip s of [] \<Rightarrow> []
                         | c # cs \<Rightarrow> py_upper_char c # map py_lower_char cs))"
    using leaf_at_process_value [OF assms(3)] by (simp add: py_capitalize_def)
  obtain l r where 3: "s = l @ py_strip s @ r" "list_all py_isspace l" "list_all py_isspace r"
    using py_strip_decomp by blast
  show ?thesis
    using 1 2 3 py_strip_ends [of s] by blast
qed

lemma normalize_example_string:
  "(case py_strip '' market Growth  '' of [] \<Rightarrow> []
    | c # cs \<Rightarrow> py_upper_char c # map py_lower_char cs) = ''Market growth''"
  by code_simp

theorem normalize_texts_string_leaf_witness:
  "''trends'' \<in> set text_fields
   \<and> map_of [(''trends'', PDict [(''summary'', PList [PInt 1, PStr '' market Growth  ''])])]
        ''trends'' = Some (PDict [(''summary'', PList [PInt 1, PStr '' market Growth  ''])])
   \<and> leaf_at (PDict [(''summary'', PList [PInt 1, PStr '' market Growth  ''])])
        [Key ''summary'', Idx 1] = Some (PStr '' market Growth  '')
   \<and> is_ascii '' market Growth  ''
   \<and> (\<exists>v'. map_of (normalize_texts
                [(''trends'', PDict [(''summary'', PList [PInt 1, PStr '' market Growth  ''])])])
              ''trends'' = Some v'
          \<and> leaf_at v' [Key ''summary'', Idx 1] = Some (PStr ''Market growth''))"
proof -
  have h1: "''trends'' \<in> set text_fields"
    by (simp add: text_fields_def)
  have h2: "map_of [(''trends'', PDict [(''summary'', PList [PInt 1, PStr '' market Growth  ''])])]
              ''trends'' = Some (PDict [(''summary'', PList [PInt 1, PStr '' market Growth  ''])])"
    by simp
  have h3: "leaf_at (PDict [(''summary'', PList [PInt 1, PStr '' market Growth  ''])])
              [Key ''summary'', Idx 1] = Some (PStr '' market Growth  '')"
    by simp
  have h4: "is_ascii '' market Growth  ''"
    by (simp add: is_ascii_def)
  from normalize_texts_string_leaf [OF h1 h2 h3 h4] obtain v' where
    "map_of (normalize_texts
        [(''trends'', PDict [(''summary'', PList [PInt 1, PStr '' market Growth  ''])])])
      ''trends'' = Some v'"
    "leaf_at v' [Key ''summary'', Idx 1] =
       Some (PStr (case py_strip '' market Growth  '' of [] \<Rightarrow> []
                   | c # cs \<Rightarrow> py_upper_char c # map py_lower_char cs))"
    by blast
  then show ?thesis
    using h1 h2 h3 h4 by (simp only: normalize_example_string) blast
qed

text \<open>
  Claim C2 as stated fails: on the summary \<^verbatim>\<open>" market Growth  "\<close> the stage returns
  \<^verbatim>\<open>"Market growth"\<close>, while trimming and capitalising the first letter alone gives
  \<^verbatim>\<open>"Market Growth"\<close>.
\<close>

theorem normalize_texts_keeps_case_counterexample:
  "normalize_texts [(''summary'', PStr '' market Growth  '')] =
     [(''summary'', PStr ''Market growth'')]
   \<and> spec_capitalize_first (py_strip '' market Growth  '') = ''Market Growth''
   \<and> ''Market growth'' \<noteq> ''Market Growth''"
  by code_simp

section \<open>Properties of \<^verbatim>\<open>chunk_data\<close>\<close>

lemma news_loop_fst:
  "0 < m \<Longrightarrow> length cur < m \<Longrightarrow>
   fst (news_loop (int m) xs (cs, map (\<lambda>a. PDict [(''news'', PStr a)]) cur)) =
     cs @ map news_chunk (full_batches m (cur @ xs))"
proof (induction xs arbitrary: cs cur)
  case Nil
  then show ?case by (simp add: full_batches.simps)
next
  case (Cons a rest)
  show ?case
  proof (cases "length cur + 1 = m")
    case True
    have fb: "full_batches m (cur @ a # rest) = (cur @ [a]) # full_batches m rest"
      using True Cons.prems by (subst full_batches.simps) auto
    have "fst (news_loop (int m) (a # rest) (cs, map (\<lambda>a. PDict [(''news'', PStr a)]) cur)) =
          fst (news_loop (int m) rest (cs @ [news_chunk (cur @ [a])], map (\<lambda>a. PDict [(''news'', PStr a)]) []))"
      using True by (simp add: news_chunk_def)
    also have "\<dots> = (cs @ [news_chunk (cur @ [a])]) @ map news_chunk (full_batches m ([] @ rest))"
      using Cons.prems by (intro Cons.IH) auto
    finally show ?thesis by (simp add: fb)
  next
    case False
    with Cons.prems have lt: "length (cur @ [a]) < m" by simp
    have "fst (news_loop (int m) (a # rest) (cs, map (\<lambda>a. PDict [(''news'', PStr a)]) cur)) =
          fst (news_loop (int m) rest (cs, map (\<lambda>a. PDict [(''news'', PStr a)]) (cur @ [a])))"
      using lt by simp
    also have "\<dots> = cs @ map news_chunk (full_batches m ((cur @ [a]) @ rest))"
      using Cons.prems(1) lt by (rule Cons.IH)
    finally show ?thesis by simp
  qed
qed

lemma full_batches_lengths: "list_all (\<lambda>b. length b = n) (full_batches n xs)"
proof (induction n xs rule: full_batches.induct)
  case (1 n xs)
  then show ?case by (subst full_batches.simps) auto
qed

lemma full_batches_concat: "concat (full_batches n xs) = take (n * (length xs div n)) xs"
proof (induction n xs rule: full_batches.induct)
  case (1 n xs)
  show ?case
  proof (cases "n = 0 \<or> length xs < n")
    case True
    then show ?thesis by (subst full_batches.simps) auto
  next
    case False
    then have n: "0 < n" "n \<le> length xs" by auto
    have d: "length xs div n = Suc ((length xs - n) div n)"
      using n by (simp add: le_div_geq)
    have "concat (full_batches n xs) = take n xs @ concat (full_batches n (drop n xs))"
      using False by (subst full_batches.simps) simp
    also have "\<dots> = take n xs @ take (n * ((length xs - n) div n)) (drop n xs)"
      using 1 False by simp
    also have "\<dots> = take (n + n * ((length xs - n) div n)) xs"
      by (simp add: take_add)
    finally show ?thesis by (simp add: d)
  qed
qed

lemma batches_concat: "0 < n \<Longrightarrow> concat (batches n xs) = xs"
proof (induction n xs rule: batches.induct)
  case (1 n xs)
  then show ?case by (subst batches.simps) auto
qed

lemma batches_sizes: "list_all (\<lambda>b. 1 \<le> length b \<and> length b \<le> n) (batches n xs)"
proof (induction n xs rule: batches.induct)
  case (1 n xs)
  then show ?case by (subst batches.simps) (auto simp: Suc_le_eq)
qed

lemma batches_butlast: "list_all (\<lambda>b. length b = n) (butlast (batches n xs))"
proof (induction n xs rule: batches.induct)
  case (1 n xs)
  show ?case
  proof (cases "n = 0 \<or> xs = []")
    case True
    then show ?thesis by (subst batches.simps) auto
  next
    case False
    show ?thesis
    proof (cases "batches n (drop n xs) = []")
      case True
      then show ?thesis using False by (subst batches.simps) auto
    next
      case ne: False
      then have "drop n xs \<noteq> []" by (subst (asm) batches.simps) (auto split: if_splits)
      then have "length (take n xs) = n" by auto
      then show ?thesis
        using 1 False ne by (subst batches.simps) auto
    qed
  qed
qed

lemma search_loop_batches:
  "0 < m \<Longrightarrow> i \<le> length items \<Longrightarrow>
   search_loop (int m) items (int i) = map search_chunk (batches m (drop i items))"
proof (induction "length items - i" arbitrary: i rule: less_induct)
  case less
  show ?case
  proof (cases "i < length items")
    case True
    have "search_loop (int m) items (int i) =
            search_chunk (take m (drop i items)) # search_loop (int m) items (int (i + m))"
      using True less.prems by (subst search_loop.simps) (simp add: search_chunk_def)
    also have "search_loop (int m) items (int (i + m)) =
                 map search_chunk (batches m (drop (min (i + m) (length items)) items))"
    proof (cases "i + m \<le> length items")
      case le: True
      have "search_loop (int m) items (int (i + m)) = map search_chunk (batches m (drop (i + m) items))"
        using less.prems True le by (intro less.hyps) auto
      then show ?thesis using le by (simp add: min_def)
    next
      case gt: False
      then have "search_loop (int m) items (int (i + m)) = []"
        by (subst search_loop.simps) auto
      then show ?thesis using gt by (simp add: min_def batches.simps)
    qed
    also have "batches m (drop (min (i + m) (length items)) items) = batches m (drop m (drop i items))"
      by (simp add: min_def add.commute) 
    finally show ?thesis
      using True less.prems by (subst batches.simps) auto
  next
    case False
    with less.prems have "i = length items" by simp
    then show ?thesis
      by (subst search_loop.simps) (simp add: batches.simps)
  qed
qed

lemma py_split_nonempty: "py_split c s \<noteq> []"
  by (induction s) (auto split: list.splits)

lemma chunk_data_5:
  "chunk_data d 5 =
     Inr (map news_chunk (full_batches 5 (take 20 (news d)))
          @ map search_chunk (batches 5 (take 10 (py_split CHR ''\<newline>'' (search_results d)))))"
proof -
  have n: "fst (news_loop 5 (take 20 (news d)) ([], [])) =
             map news_chunk (full_batches 5 (take 20 (news d)))"
    using news_loop_fst [of 5 "[]" "take 20 (news d)" "[]"] by simp
  have s: "search_loop 5 (take 10 (py_split CHR ''\<newline>'' (search_results d))) 0 =
             map search_chunk (batches 5 (take 10 (py_split CHR ''\<newline>'' (search_results d))))"
    using search_loop_batches [of 5 0 "take 10 (py_split CHR ''\<newline>'' (search_results d))"]
    by simp
  show ?thesis
    using n s by (simp add: chunk_data_def case_prod_beta)
qed

lemma chunk_data_example_12_news:
  "chunk_data \<lparr>news = news12, search_results = ''only''\<rparr> 5 =
     Inr [news_chunk [''n1'', ''n2'', ''n3'', ''n4'', ''n5''],
          news_chunk [''n6'', ''n7'', ''n8'', ''n9'', ''n10''],
          search_chunk [''only'']]"
  by (simp add: chunk_data_def search_loop.simps news12_def search_chunk_def news_chunk_def)

lemma chunk_data_example_7_lines:
  "chunk_data \<lparr>news = [], search_results = search7\<rparr> 5 =
     Inr [search_chunk [''s1'', ''s2'', ''s3'', ''s4'', ''s5''], search_chunk [''s6'', ''s7'']]"
  by (simp add: chunk_data_def search_loop.simps search7_def search_chunk_def)

text \<open>
  Claim C5. With the bound 5, \<^verbatim>\<open>chunk_data\<close> returns news chunks followed by search
  chunks. The news chunks are batches \<open>nb\<close> of exactly 5 items each, which together are
  the longest prefix of the first at most 20 news items whose length is a multiple of 5
  (a final partial batch is dropped). The search chunks are batches \<open>sb\<close> which together
  are the first at most 10 lines of the search string, every batch but the last of
  size 5 and every batch of size 1 to 5 (the final partial batch is kept). Order is
  kept. On 12 news items there are exactly 2 news chunks, of the first 10 items; on 7
  lines the chunks have sizes 5 and 2.
\<close>

theorem chunk_data_bound_5:
  "(\<exists>nb sb.
      chunk_data d 5 = Inr (map news_chunk nb @ map search_chunk sb)
    \<and> list_all (\<lambda>b. length b = 5) nb
    \<and> concat nb = take (5 * (min 20 (length (news d)) div 5)) (news d)
    \<and> concat sb = take 10 (py_split CHR ''\<newline>'' (search_results d))
    \<and> list_all (\<lambda>b. length b = 5) (butlast sb)
    \<and> list_all (\<lambda>b. 1 \<le> length b \<and> length b \<le> 5) sb)
   \<and> chunk_data \<lparr>news = news12, search_results = ''only''\<rparr> 5 =
       Inr [news_chunk [''n1'', ''n2'', ''n3'', ''n4'', ''n5''],
            news_chunk [''n6'', ''n7'', ''n8'', ''n9'', ''n10''],
            search_chunk [''only'']]
   \<and> chunk_data \<lparr>news = [], search_results = search7\<rparr> 5 =
       Inr [search_chunk [''s1'', ''s2'', ''s3'', ''s4'', ''s5''], search_chunk [''s6'', ''s7'']]"
proof -
  let ?nb = "full_batches 5 (take 20 (news d))"
  let ?sb = "batches 5 (take 10 (py_split CHR ''\<newline>'' (search_results d)))"
  have "5 * (min 20 (length (news d)) div 5) \<le> 20"
    by simp
  then have c: "concat ?nb = take (5 * (min 20 (length (news d)) div 5)) (news d)"
    by (simp add: full_batches_concat min.commute min_absorb1 del: mult_le_cancel_left)
  have "chunk_data d 5 = Inr (map news_chunk ?nb @ map search_chunk ?sb)
      \<and> list_all (\<lambda>b. length b = 5) ?nb
      \<and> concat ?nb = take (5 * (min 20 (length (news d)) div 5)) (news d)
      \<and> concat ?sb = take 10 (py_split CHR ''\<newline>'' (search_results d))
      \<and> list_all (\<lambda>b. length b = 5) (butlast ?sb)
      \<and> list_all (\<lambda>b. 1 \<le> length b \<and> length b \<le> 5) ?sb"
    using c chunk_data_5 [of d] full_batches_lengths [of 5 "take 20 (news d)"]
      batches_concat [of 5 "take 10 (py_split CHR ''\<newline>'' (search_results d))"]
      batches_butlast [of 5 "take 10 (py_split CHR ''\<newline>'' (search_results d))"]
      batches_sizes [of 5 "take 10 (py_split CHR ''\<newline>'' (search_results d))"]
    by simp
  then show ?thesis
    using chunk_data_example_12_news chunk_data_example_7_lines by blast
qed

text \<open>
  Claim C10. \<^verbatim>\<open>chunk_data\<close> always ends with a search-results chunk: with no news and
  the empty search string the result is the single chunk \<^verbatim>\<open>{'search_results': ['']}\<close>,
  since splitting the empty string gives one empty line; and for every preprocessed
  value the result is a list whose last element is a search-results chunk.
\<close>

theorem chunk_data_always_one_search_chunk:
  "chunk_data \<lparr>news = [], search_results = ''''\<rparr> 5 =
     Inr [PDict [(''search_results'', PList [PStr ''''])]]
   \<and> (\<exists>cs b. chunk_data d 5 = Inr (cs @ [PDict [(''search_results'', PList (map PStr b))]]))"
proof -
  let ?items = "take 10 (py_split CHR ''\<newline>'' (search_results d))"
  have e: "chunk_data \<lparr>news = [], search_results = ''''\<rparr> 5 =
             Inr [PDict [(''search_results'', PList [PStr ''''])]]"
    by (simp add: chunk_data_def search_loop.simps)
  have "?items \<noteq> []"
    using py_split_nonempty [of "CHR ''\<newline>''" "search_results d"] by simp
  then have "batches 5 ?items \<noteq> []"
    by (subst batches.simps) simp
  then obtain bs b where B: "batches 5 ?items = bs @ [b]"
    by (cases "batches 5 ?items" rule: rev_cases) auto
  have "chunk_data d 5 =
      Inr ((map news_chunk (full_batches 5 (take 20 (news d))) @ map search_chunk bs)
           @ [search_chunk b])"
    using chunk_data_5 [of d] B by simp
  then show ?thesis
    using e unfolding search_chunk_def by blast
qed

section \<open>Properties of \<^verbatim>\<open>merge_responses\<close>\<close>

lemma merge_items_field:
  "merge_items B m its = Inr m' \<Longrightarrow> fold_field B (map_of m k) (values_in k its) = Inr (map_of m' k)"
proof (induction its arbitrary: m)
  case Nil
  then show ?case by (simp add: values_in_def)
next
  case (Cons kv its)
  obtain k' v where kv: "kv = (k', v)" by (cases kv)
  from Cons.prems kv obtain x where x: "merge_field B (map_of m k') v = Inr x"
    and rest: "merge_items B (AList.update k' x m) its = Inr m'"
    by (auto simp: merge_value_def split: sum.splits)
  have ih: "fold_field B (map_of (AList.update k' x m) k) (values_in k its) = Inr (map_of m' k)"
    using Cons.IH [OF rest] .
  show ?case
  proof (cases "k' = k")
    case True
    then show ?thesis using ih x kv by (simp add: values_in_def update_conv')
  next
    case False
    then show ?thesis using ih kv by (simp add: values_in_def update_conv')
  qed
qed

lemma merge_items_append:
  "merge_items B m (xs @ ys) =
     (case merge_items B m xs of Inl e \<Rightarrow> Inl e | Inr m' \<Rightarrow> merge_items B m' ys)"
  by (induction xs arbitrary: m) (auto split: sum.splits)

lemma merge_from_items:
  "list_all is_mapping rs \<Longrightarrow> merge_from B m rs = merge_items B m (concat (map items_of rs))"
proof (induction rs arbitrary: m)
  case Nil
  then show ?case by simp
next
  case (Cons r rs)
  then obtain d where "r = PDict d"
    by (cases r) (auto simp: is_mapping_def)
  then show ?case
    using Cons by (auto simp: merge_items_append items_of_def split: sum.splits)
qed

lemma merge_field_kind:
  assumes "case cur of None \<Rightarrow> True | Some c \<Rightarrow> kind_of c = kind_of v"
  shows "\<exists>x. merge_field B cur v = Inr x \<and> kind_of x = kind_of v"
proof (cases v)
  case (PList xs)
  then show ?thesis
    using assms by (cases cur; cases "the cur") (auto simp: merge_field_def kind_of_def)
next
  case (PDict d)
  then show ?thesis
    using assms by (cases cur; cases "the cur") (auto simp: merge_field_def kind_of_def)
qed (auto simp: merge_field_def merge_scalar_def kind_of_def)

lemma consistent_items_Cons:
  assumes "consistent_items ((k, v) # its)"
  shows "consistent_items its"
    and "\<forall>kv' \<in> set its. fst kv' = k \<longrightarrow> kind_of (snd kv') = kind_of v"
proof -
  have a: "kind_of (snd q) = kind_of (snd p)"
    if "p \<in> set ((k, v) # its)" "q \<in> set ((k, v) # its)" "fst q = fst p" for p q
    using assms that unfolding consistent_items_def list_all_iff by blast
  have "kind_of (snd q) = kind_of (snd p)"
    if "p \<in> set its" "q \<in> set its" "fst q = fst p" for p q
    using a [of p q] that by (meson list.set_intros(2))
  then show "consistent_items its"
    unfolding consistent_items_def list_all_iff by blast
  have "kind_of (snd q) = kind_of v" if "q \<in> set its" "fst q = k" for q
  proof -
    have "(k, v) \<in> set ((k, v) # its)" "q \<in> set ((k, v) # its)" "fst q = fst (k, v)"
      using that by (simp_all only: list.set_intros fst_conv)
    from a [OF this] show ?thesis by (simp only: snd_conv)
  qed
  then show "\<forall>kv' \<in> set its. fst kv' = k \<longrightarrow> kind_of (snd kv') = kind_of v"
    by blast
qed

lemma merge_items_total:
  assumes "consistent_items its"
    and "\<forall>kv \<in> set its. \<forall>c. map_of m (fst kv) = Some c \<longrightarrow> kind_of c = kind_of (snd kv)"
  shows "\<exists>m'. merge_items B m its = Inr m'"
  using assms
proof (induction its arbitrary: m)
  case Nil
  then show ?case by simp
next
  case (Cons kv its)
  obtain k v where kv: "kv = (k, v)" by (cases kv)
  have "case map_of m k of None \<Rightarrow> True | Some c \<Rightarrow> kind_of c = kind_of v"
    using Cons.prems(2) kv by (simp split: option.splits)
  from merge_field_kind [OF this] obtain x where
    x: "merge_field B (map_of m k) v = Inr x" "kind_of x = kind_of v"
    by blast
  have c: "consistent_items its"
    and same: "\<forall>kv' \<in> set its. fst kv' = k \<longrightarrow> kind_of (snd kv') = kind_of v"
    using consistent_items_Cons [of k v its] Cons.prems(1) kv by simp_all
  have inv: "\<forall>kv' \<in> set its. \<forall>c. map_of (AList.update k x m) (fst kv') = Some c
               \<longrightarrow> kind_of c = kind_of (snd kv')"
  proof (intro ballI allI impI)
    fix kv' c
    assume in_its: "kv' \<in> set its"
      and c: "map_of (AList.update k x m) (fst kv') = Some c"
    show "kind_of c = kind_of (snd kv')"
    proof (cases "fst kv' = k")
      case True
      with c have "c = x" by (simp add: update_conv')
      with True same in_its x(2) show ?thesis by simp
    next
      case False
      with c have "map_of m (fst kv') = Some c" by (simp add: update_conv')
      with Cons.prems(2) in_its show ?thesis by simp
    qed
  qed
  from Cons.IH [OF c inv] show ?case
    using x(1) kv by (simp add: merge_value_def)
qed

lemma fold_field_lists:
  "fold_field B (Some (PList ys)) (map PList xss) = Inr (Some (PList (ys @ concat xss)))"
  by (induction xss arbitrary: ys) (auto simp: merge_field_def)

lemma fold_field_lists_None:
  "xss \<noteq> [] \<Longrightarrow> fold_field B None (map PList xss) = Inr (Some (PList (concat xss)))"
  by (cases xss) (auto simp: merge_field_def fold_field_lists)

lemma map_of_dict_update:
  "distinct (map fst d) \<Longrightarrow> map_of (dict_update e d) = map_of e ++ map_of d"
proof (induction d arbitrary: e)
  case Nil
  then show ?case by (simp add: dict_update_def)
next
  case (Cons kv d)
  obtain k v where kv: "kv = (k, v)" by (cases kv)
  have "map_of (dict_update e (kv # d)) = map_of (dict_update (AList.update k v e) d)"
    by (simp add: dict_update_def kv)
  also have "\<dots> = map_of (AList.update k v e) ++ map_of d"
    using Cons by simp
  also have "\<dots> = map_of e ++ map_of (kv # d)"
  proof
    fix j
    have "k \<notin> dom (map_of d)"
      using Cons.prems kv by (simp add: dom_map_of_conv_image_fst)
    then show "(map_of (AList.update k v e) ++ map_of d) j = (map_of e ++ map_of (kv # d)) j"
      by (auto simp: update_conv' map_add_def kv split: option.splits)
  qed
  finally show ?case .
qed

lemma fold_field_dicts:
  "list_all (\<lambda>d. distinct (map fst d)) ds \<Longrightarrow>
   \<exists>e'. fold_field B (Some (PDict e)) (map PDict ds) = Inr (Some (PDict e'))
       \<and> map_of e' = foldl (++) (map_of e) (map map_of ds)"
proof (induction ds arbitrary: e)
  case Nil
  then show ?case by simp
next
  case (Cons d ds)
  then have "map_of (dict_update e d) = map_of e ++ map_of d"
    by (simp add: map_of_dict_update)
  then show ?case
    using Cons.IH [of "dict_update e d"] Cons.prems by (simp add: merge_field_def)
qed

lemma fold_field_dicts_None:
  assumes "ds \<noteq> []" and "list_all (\<lambda>d. distinct (map fst d)) ds"
  shows "\<exists>e'. fold_field B None (map PDict ds) = Inr (Some (PDict e'))
       \<and> map_of e' = foldl (++) Map.empty (map map_of ds)"
proof -
  obtain d ds' where ds: "ds = d # ds'"
    using assms(1) by (cases ds) auto
  have "map_of (dict_update [] d) = map_of d"
    using assms(2) ds by (simp add: map_of_dict_update)
  then show ?thesis
    using fold_field_dicts [of ds' B "dict_update [] d"] assms(2) ds
    by (simp add: merge_field_def)
qed

lemma fold_field_strs:
  "fold_field B (Some (PStr a)) (map PStr ss) = Inr (Some (PStr (foldl join_line a ss)))"
  by (induction ss arbitrary: a)
    (auto simp: merge_field_def merge_scalar_def py_str_def join_line_def)

lemma fold_field_strs_None:
  "ss \<noteq> [] \<Longrightarrow> fold_field B None (map PStr ss) = Inr (Some (PStr (foldl join_line [] ss)))"
  by (cases ss) (auto simp: merge_field_def merge_scalar_def py_str_def join_line_def fold_field_strs)

lemma py_strip_trimmed: "trimmed s \<Longrightarrow> py_strip s = s"
proof -
  assume t: "trimmed s"
  then have "dropWhile py_isspace s = s"
    by (simp add: trimmed_def dropWhile_eq_self_iff)
  moreover have "dropWhile py_isspace (rev s) = rev s"
    using t by (simp add: trimmed_def dropWhile_eq_self_iff hd_rev)
  ultimately show ?thesis
    by (simp add: py_strip_def)
qed

lemma trimmed_join: "trimmed a \<Longrightarrow> trimmed s \<Longrightarrow> trimmed (a @ [CHR ''\<newline>''] @ s)"
  by (simp add: trimmed_def)

lemma join_line_trimmed:
  "trimmed a \<Longrightarrow> trimmed s \<Longrightarrow> join_line a s = a @ [CHR ''\<newline>''] @ s"
  unfolding join_line_def by (rule py_strip_trimmed) (rule trimmed_join)

lemma join_line_first: "trimmed s \<Longrightarrow> join_line [] s = s"
proof -
  assume t: "trimmed s"
  have "py_isspace (CHR ''\<newline>'')"
    by (simp add: py_isspace_def)
  then have "py_strip ([CHR ''\<newline>''] @ s) = py_strip s"
    by (simp add: py_strip_def)
  then show ?thesis
    using py_strip_trimmed [OF t] by (simp add: join_line_def)
qed

lemma intercalate_join:
  "intercalate sep ((a @ sep @ s) # ss) = a @ sep @ intercalate sep (s # ss)"
  by (cases ss) simp_all

lemma foldl_join_line_trimmed:
  "trimmed a \<Longrightarrow> list_all trimmed ss \<Longrightarrow>
   foldl join_line a ss = intercalate [CHR ''\<newline>''] (a # ss)"
proof (induction ss arbitrary: a)
  case Nil
  then show ?case by simp
next
  case (Cons s ss)
  then have "foldl join_line (a @ [CHR ''\<newline>''] @ s) ss =
               intercalate [CHR ''\<newline>''] ((a @ [CHR ''\<newline>''] @ s) # ss)"
    by (intro Cons.IH trimmed_join) simp_all
  then show ?case
    using Cons.prems intercalate_join [of "[CHR ''\<newline>'']" a s ss]
    by (simp add: join_line_trimmed)
qed

lemma foldl_join_line_intercalate:
  "list_all trimmed ss \<Longrightarrow> foldl join_line [] ss = intercalate [CHR ''\<newline>''] ss"
proof (cases ss)
  case Nil
  then show ?thesis by simp
next
  case (Cons s ss')
  assume "list_all trimmed ss"
  then show ?thesis
    using Cons by (simp add: join_line_first foldl_join_line_trimmed)
qed

lemma merge_responses_returns:
  assumes "list_all is_mapping rs" and "consistent_kinds rs"
  shows "\<exists>m. merge_responses B rs = Inr m
           \<and> fold_field B None (field_values k rs) = Inr (map_of m k)"
proof -
  have eq: "merge_responses B rs = merge_items B [] (concat (map items_of rs))"
    using assms(1) by (simp add: merge_responses_def merge_from_items)
  have "consistent_items (concat (map items_of rs))"
    using assms(2) by (simp add: consistent_kinds_def)
  then obtain m where m: "merge_items B [] (concat (map items_of rs)) = Inr m"
    using merge_items_total [of "concat (map items_of rs)" "[]" B] by auto
  from merge_items_field [OF m, of k]
  have "fold_field B None (field_values k rs) = Inr (map_of m k)"
    by (simp add: field_values_def)
  with eq m show ?thesis by simp
qed

lemma merge_responses_example_list:
  "merge_responses B [PDict [(''a'', PList [PInt 1])], PDict [(''a'', PList [PInt 2, PInt 3])]]
     = Inr [(''a'', PList [PInt 1, PInt 2, PInt 3])]"
  by (simp add: merge_responses_def merge_value_def merge_field_def)

lemma merge_responses_example_str:
  "merge_responses B [PDict [(''s'', PStr ''x'')], PDict [(''s'', PStr ''y'')]]
     = Inr [(''s'', PStr (''x'' @ [CHR ''\<newline>''] @ ''y''))]"
  by (simp add: merge_responses_def merge_value_def merge_field_def merge_scalar_def
      py_str_def py_strip_def py_isspace_def)

text \<open>
  Claim C6, as the code has it. The claim does not hold for every sequence of response
  mappings: \<^verbatim>\<open>merge_responses\<close> raises when a key changes its kind of value from one
  chunk to another (see the counterexample below). What holds: for responses that are
  mappings in which every key has one kind of value throughout, \<^verbatim>\<open>merge_responses\<close>
  returns a mapping \<open>m\<close>, and at every key \<open>k\<close>: a key that no response holds is absent;
  a list-valued field is the concatenation of its lists in chunk order; a mapping-valued
  field is merged key by key, a later chunk overwriting an earlier one; a field of ASCII
  strings is joined with a newline and trimmed, one chunk after the other, which for
  strings that are already trimmed is the strings with a newline between them. The empty
  sequence gives the empty mapping, and the two examples of the specification evaluate
  as stated.
\<close>

theorem merge_responses_fields:
  assumes "list_all is_mapping rs" and "consistent_kinds rs"
  shows "(\<exists>m. merge_responses B rs = Inr m
            \<and> (field_values k rs = [] \<longrightarrow> map_of m k = None)
            \<and> (\<forall>xss. xss \<noteq> [] \<and> field_values k rs = map PList xss
                   \<longrightarrow> map_of m k = Some (PList (concat xss)))
            \<and> (\<forall>ds. ds \<noteq> [] \<and> field_values k rs = map PDict ds
                      \<and> list_all (\<lambda>d. distinct (map fst d)) ds
                   \<longrightarrow> (\<exists>e. map_of m k = Some (PDict e)
                          \<and> map_of e = foldl (++) Map.empty (map map_of ds)))
            \<and> (\<forall>ss. ss \<noteq> [] \<and> field_values k rs = map PStr ss \<and> list_all is_ascii ss
                   \<longrightarrow> map_of m k = Some (PStr (foldl join_line [] ss))
                     \<and> (list_all trimmed ss
                          \<longrightarrow> map_of m k = Some (PStr (intercalate [CHR ''\<newline>''] ss)))))
       \<and> merge_responses B [] = Inr []
       \<and> merge_responses B [PDict [(''a'', PList [PInt 1])],
                             PDict [(''a'', PList [PInt 2, PInt 3])]]
           = Inr [(''a'', PList [PInt 1, PInt 2, PInt 3])]
       \<and> merge_responses B [PDict [(''s'', PStr ''x'')], PDict [(''s'', PStr ''y'')]]
           = Inr [(''s'', PStr (''x'' @ [CHR ''\<newline>''] @ ''y''))]"
proof -
  from merge_responses_returns [OF assms] obtain m where
    m: "merge_responses B rs = Inr m"
    and f: "fold_field B None (field_values k rs) = Inr (map_of m k)"
    by blast
  have 1: "field_values k rs = [] \<longrightarrow> map_of m k = None"
    using f by auto
  have 2: "\<forall>xss. xss \<noteq> [] \<and> field_values k rs = map PList xss
             \<longrightarrow> map_of m k = Some (PList (concat xss))"
    using f by (auto simp: fold_field_lists_None)
  have 3: "\<forall>ds. ds \<noteq> [] \<and> field_values k rs = map PDict ds
                \<and> list_all (\<lambda>d. distinct (map fst d)) ds
             \<longrightarrow> (\<exists>e. map_of m k = Some (PDict e)
                    \<and> map_of e = foldl (++) Map.empty (map map_of ds))"
  proof (intro allI impI)
    fix ds
    assume a: "ds \<noteq> [] \<and> field_values k rs = map PDict ds
                \<and> list_all (\<lambda>d. distinct (map fst d)) ds"
    then obtain e where e: "fold_field B None (map PDict ds) = Inr (Some (PDict e))"
      and e': "map_of e = foldl (++) Map.empty (map map_of ds)"
      using fold_field_dicts_None [of ds B] by blast
    from a f e have "map_of m k = Some (PDict e)"
      by simp
    with e' show "\<exists>e. map_of m k = Some (PDict e)
                    \<and> map_of e = foldl (++) Map.empty (map map_of ds)"
      by blast
  qed
  have 4: "\<forall>ss. ss \<noteq> [] \<and> field_values k rs = map PStr ss \<and> list_all is_ascii ss
             \<longrightarrow> map_of m k = Some (PStr (foldl join_line [] ss))
               \<and> (list_all trimmed ss
                    \<longrightarrow> map_of m k = Some (PStr (intercalate [CHR ''\<newline>''] ss)))"
    using f by (auto simp: fold_field_strs_None foldl_join_line_intercalate)
  have 5: "merge_responses B [] = Inr []"
    by (simp add: merge_responses_def)
  show ?thesis
    using m 1 2 3 4 5 merge_responses_example_list merge_responses_example_str
    by blast
qed

theorem merge_responses_fields_witness:
  "list_all is_mapping merge_example \<and> consistent_kinds merge_example
   \<and> (\<exists>m. merge_responses no_builtins merge_example = Inr m
          \<and> map_of m ''a'' = Some (PList [PInt 1, PInt 2, PInt 3])
          \<and> map_of m ''s'' = Some (PStr (''x'' @ [CHR ''\<newline>''] @ ''y'')))"
proof -
  have h1: "list_all is_mapping merge_example"
    by (simp add: merge_example_def is_mapping_def)
  have h2: "consistent_kinds merge_example"
    by (simp add: merge_example_def consistent_kinds_def consistent_items_def items_of_def
        kind_of_def)
  from merge_responses_fields [OF h1 h2, of no_builtins "''a''"] obtain m where
    m: "merge_responses no_builtins merge_example = Inr m"
    and l: "\<forall>xss. xss \<noteq> [] \<and> field_values ''a'' merge_example = map PList xss
              \<longrightarrow> map_of m ''a'' = Some (PList (concat xss))"
    by blast
  from merge_responses_fields [OF h1 h2, of no_builtins "''s''"] obtain m' where
    m': "merge_responses no_builtins merge_example = Inr m'"
    and s: "\<forall>ss. ss \<noteq> [] \<and> field_values ''s'' merge_example = map PStr ss
                \<and> list_all is_ascii ss
              \<longrightarrow> map_of m' ''s'' = Some (PStr (foldl join_line [] ss))
                \<and> (list_all trimmed ss
                     \<longrightarrow> map_of m' ''s'' = Some (PStr (intercalate [CHR ''\<newline>''] ss)))"
    by blast
  have "field_values ''a'' merge_example = map PList [[PInt 1], [PInt 2, PInt 3]]"
    by (simp add: merge_example_def field_values_def values_in_def items_of_def)
  with l have a: "map_of m ''a'' = Some (PList (concat [[PInt 1], [PInt 2, PInt 3]]))"
    by blast
  have "field_values ''s'' merge_example = map PStr [''x'', ''y'']"
    by (simp add: merge_example_def field_values_def values_in_def items_of_def)
  moreover have "list_all trimmed [''x'', ''y'']"
    by (simp add: trimmed_def py_isspace_def)
  moreover have "list_all is_ascii [''x'', ''y'']"
    by (simp add: is_ascii_def)
  ultimately have "map_of m' ''s'' = Some (PStr (intercalate [CHR ''\<newline>''] [''x'', ''y'']))"
    using s by blast
  moreover have "m' = m"
    using m m' by simp
  ultimately show ?thesis
    using h1 h2 m a by simp
qed

text \<open>
  Claim C6 as stated fails: in the two responses of \<open>mixed_example\<close> the field \<^verbatim>\<open>a\<close> is
  list-valued in every chunk, yet its lists are not concatenated: the second response
  brings a list for \<^verbatim>\<open>b\<close>, where the first left a string, \<^verbatim>\<open>extend\<close> is called on that
  string and \<^verbatim>\<open>merge_responses\<close> raises \<^verbatim>\<open>AttributeError\<close>.
\<close>

theorem merge_responses_mixed_kinds_counterexample:
  "list_all is_mapping mixed_example
   \<and> field_values ''a'' mixed_example = map PList [[PInt 1], [PInt 2]]
   \<and> merge_responses no_builtins mixed_example = Inl AttributeError"
  by (simp add: mixed_example_def is_mapping_def field_values_def values_in_def items_of_def
      merge_responses_def merge_value_def merge_field_def merge_scalar_def py_str_def)

section \<open>Properties of \<^verbatim>\<open>remove_duplicates\<close>\<close>

lemma remove_duplicates_spec_example:
  "remove_duplicates B
     [(''trends'', PList [PDict [(''name'', PStr ''A'')], PDict [(''name'', PStr ''A'')],
                          PDict [(''name'', PStr ''B'')]])]
   = Inr [(''trends'', PList [PDict [(''name'', PStr ''A'')], PDict [(''name'', PStr ''B'')]])]"
  by (simp add: remove_duplicates_def remove_duplicates_key_def py_iter_def create_hash_def
      py_hashable_def)

lemma hash_items_unhashable:
  "(k, v) \<in> set d \<Longrightarrow> py_hashable v = None \<Longrightarrow> hash_items d = Inl TypeError"
  by (induction d) (auto split: option.splits sum.splits)

lemma hash_items_error: "hash_items d = Inl e \<Longrightarrow> e = TypeError"
  by (induction d arbitrary: e) (auto split: option.splits sum.splits prod.splits)

lemma create_hash_error: "create_hash B item = Inl e \<Longrightarrow> e = TypeError"
  by (cases item) (auto simp: create_hash_def split: sum.splits dest: hash_items_error)

lemma dedup_loop_unhashable:
  assumes "PDict d \<in> set items" and "(k, v) \<in> set d" and "py_hashable v = None"
  shows "dedup_loop B items seen unique_list = Inl TypeError"
  using assms(1)
proof (induction items arbitrary: seen unique_list)
  case Nil
  then show ?case by simp
next
  case (Cons item items)
  show ?case
  proof (cases "create_hash B item")
    case (Inl e)
    then show ?thesis
      using create_hash_error [OF Inl] by simp
  next
    case (Inr h)
    have "item \<noteq> PDict d"
      using Inr hash_items_unhashable [OF assms(2,3)] by (auto simp: create_hash_def)
    with Cons.prems have "PDict d \<in> set items" by simp
    then show ?thesis
      using Inr Cons.IH by simp
  qed
qed

lemma dedup_loop_subset:
  "dedup_loop B items seen acc = Inr u \<Longrightarrow> set u \<subseteq> set acc \<union> set items"
proof (induction items arbitrary: seen acc)
  case Nil
  then show ?case by simp
next
  case (Cons item items)
  from Cons.prems obtain h where h: "create_hash B item = Inr h"
    by (cases "create_hash B item") auto
  show ?case
  proof (cases "h \<in> seen")
    case True
    with Cons.prems h have "dedup_loop B items seen acc = Inr u" by simp
    from Cons.IH [OF this] show ?thesis by auto
  next
    case False
    with Cons.prems h have "dedup_loop B items (insert h seen) (acc @ [item]) = Inr u" by simp
    from Cons.IH [OF this] show ?thesis by auto
  qed
qed

text \<open>
  Claim C4 fails on the code: a trend of the schema the analysis asks the model for,
  with its list-valued \<^verbatim>\<open>evidence\<close> field, makes \<^verbatim>\<open>create_hash\<close> raise \<^verbatim>\<open>TypeError\<close>
  (unhashable type: list), and the stage raises instead of returning the list.
\<close>

theorem remove_duplicates_raises_on_evidence_list:
  "remove_duplicates B
     [(''trends'', PList [PDict [(''name'', PStr ''A''), (''description'', PStr ''d''),
                                 (''evidence'', PList [PStr ''e1'']),
                                 (''impact_score'', PFloat (9 / 10))]])]
   = Inl TypeError"
  by (simp add: remove_duplicates_def remove_duplicates_key_def py_iter_def create_hash_def
      py_hashable_def)

section \<open>Properties of the quality score\<close>

lemma calculate_quality_score_list:
  "map_of analysis ''trends'' = Some (PList ts) \<Longrightarrow>
   calculate_quality_score analysis =
     Inr (min (3 / 10 + min (of_nat (length ts) * (1 / 10)) (3 / 10)) 1)"
  by (simp add: calculate_quality_score_def dict_get_def py_len_def)

lemma calculate_quality_score_range:
  "calculate_quality_score analysis = Inr q \<Longrightarrow> 0 \<le> q \<and> q \<le> 1"
  by (auto simp: calculate_quality_score_def Let_def min_def split: sum.splits if_splits)

text \<open>
  Claim C8. When the top-level \<^verbatim>\<open>trends\<close> holds a list of \<open>n\<close> elements,
  \<^verbatim>\<open>calculate_quality_score\<close> returns \<open>min (0.3 + min (n * 0.1) 0.3) 1.0\<close>, which is
  \<open>0.3 + n * 0.1\<close> for \<open>n \<le> 3\<close> and \<open>0.6\<close> from there on: 0.3 for no trend, 0.6 for 3
  and for 10 trends. Whatever the analysis, a score that is returned lies in [0, 1].
\<close>

theorem calculate_quality_score_formula:
  assumes "map_of analysis ''trends'' = Some (PList ts)"
  shows "calculate_quality_score analysis =
           Inr (min (3 / 10 + min (of_nat (length ts) * (1 / 10)) (3 / 10)) 1)
       \<and> calculate_quality_score analysis =
           Inr (if length ts \<le> 3 then 3 / 10 + of_nat (length ts) / 10 else 6 / 10)
       \<and> (length ts = 0 \<longrightarrow> calculate_quality_score analysis = Inr (3 / 10))
       \<and> (length ts = 3 \<longrightarrow> calculate_quality_score analysis = Inr (6 / 10))
       \<and> (length ts = 10 \<longrightarrow> calculate_quality_score analysis = Inr (6 / 10))
       \<and> (\<forall>a q. calculate_quality_score a = Inr q \<longrightarrow> 0 \<le> q \<and> q \<le> 1)"
proof -
  have f: "calculate_quality_score analysis =
             Inr (min (3 / 10 + min (of_nat (length ts) * (1 / 10)) (3 / 10)) 1)"
    using assms by (rule calculate_quality_score_list)
  have "(of_nat (length ts) :: rat) \<le> 3 \<longleftrightarrow> length ts \<le> 3"
    by (metis of_nat_le_iff of_nat_numeral)
  then have c: "min (3 / 10 + min (of_nat (length ts) * (1 / 10)) (3 / 10)) (1 :: rat) =
             (if length ts \<le> 3 then 3 / 10 + of_nat (length ts) / 10 else 6 / 10)"
    by (auto simp: min_def)
  show ?thesis
    using f c calculate_quality_score_range by auto
qed

theorem calculate_quality_score_formula_witness:
  "map_of [(''trends'', PList [PStr ''a'', PStr ''b'', PStr ''c''])] ''trends''
     = Some (PList [PStr ''a'', PStr ''b'', PStr ''c''])
   \<and> calculate_quality_score [(''trends'', PList [PStr ''a'', PStr ''b'', PStr ''c''])]
       = Inr (6 / 10)
   \<and> map_of [(''trends'', PList [])] ''trends'' = Some (PList [])
   \<and> calculate_quality_score [(''trends'', PList [])] = Inr (3 / 10)"
proof -
  have h3: "map_of [(''trends'', PList [PStr ''a'', PStr ''b'', PStr ''c''])] ''trends''
              = Some (PList [PStr ''a'', PStr ''b'', PStr ''c''])"
    by simp
  have h0: "map_of [(''trends'', PList [])] ''trends'' = Some (PList [])"
    by simp
  show ?thesis
    using calculate_quality_score_formula [OF h3] calculate_quality_score_formula [OF h0]
    by simp
qed

section \<open>The validators do not change the analysis\<close>

lemma competitors_loop_frame:
  "competitors_loop a cs out = Inr (a', ws) \<Longrightarrow> a' = a"
  by (induction cs arbitrary: out) (auto split: sum.splits)

lemma validate_data_structure_frame:
  "validate_data_structure a = Inr (a', ws) \<Longrightarrow> a' = a"
  by (auto simp: validate_data_structure_def split: option.splits sum.splits
      dest: competitors_loop_frame)

lemma check_competitor_count_frame: "check_competitor_count st = Inr st' \<Longrightarrow> fst st' = fst st"
  by (auto simp: check_competitor_count_def split: sum.splits)

lemma check_trend_count_frame: "check_trend_count st = Inr st' \<Longrightarrow> fst st' = fst st"
  by (auto simp: check_trend_count_def split: sum.splits)

lemma check_weakness_count_frame: "check_weakness_count st = Inr st' \<Longrightarrow> fst st' = fst st"
  by (auto simp: check_weakness_count_def split: sum.splits)

lemma validate_analysis_quality_frame:
  assumes "validate_analysis_quality a = Inr (a', ws)"
  shows "a' = a"
proof -
  from assms obtain st1 st2 where
    1: "check_competitor_count (a, []) = Inr st1"
    and 2: "check_trend_count st1 = Inr st2"
    and 3: "check_weakness_count st2 = Inr (a', ws)"
    by (auto simp: validate_analysis_quality_def split: sum.splits)
  from check_weakness_count_frame [OF 3] check_trend_count_frame [OF 2]
    check_competitor_count_frame [OF 1]
  show ?thesis by simp
qed

lemma competitors_loop_total:
  "list_all is_mapping cs \<Longrightarrow> \<exists>ws. competitors_loop a cs out = Inr (a, ws)"
proof (induction cs arbitrary: out)
  case Nil
  then show ?case by simp
next
  case (Cons c cs)
  then obtain d where "c = PDict d"
    by (cases c) (auto simp: is_mapping_def)
  then obtain w where "check_competitor c = Inr w"
    by (simp add: check_competitor_def Let_def)
  then show ?case
    using Cons by simp
qed

lemma validate_data_structure_total:
  assumes "competitors_ok a"
  shows "\<exists>ws. validate_data_structure a = Inr (a, ws)"
proof (cases "map_of a ''competitors''")
  case None
  then show ?thesis by (simp add: validate_data_structure_def)
next
  case (Some c)
  with assms obtain d where d: "c = PDict d"
    by (cases c) (auto simp: competitors_ok_def dict_get_def is_mapping_def)
  with assms Some have "is_mapping_list (dict_get d ''top_competitors'' (PList []))"
    by (simp add: competitors_ok_def dict_get_def items_of_def)
  then obtain xs where xs: "dict_get d ''top_competitors'' (PList []) = PList xs"
    and m: "list_all is_mapping xs"
    by (cases "dict_get d ''top_competitors'' (PList [])") (auto simp: is_mapping_list_def)
  from competitors_loop_total [OF m] obtain ws where "competitors_loop a xs [] = Inr (a, ws)"
    by blast
  then show ?thesis
    using Some d xs
    by (simp add: validate_data_structure_def py_get_def py_iter_def dict_get_def)
qed

lemma is_sized_len: "is_sized v \<Longrightarrow> \<exists>n. py_len v = Inr n"
  by (cases v) (auto simp: is_sized_def py_len_def)

lemma validate_analysis_quality_total:
  assumes "schema_shaped a"
  shows "\<exists>ws. validate_analysis_quality a = Inr (a, ws)"
proof -
  from assms have c: "competitors_ok a" and t: "trends_ok a" and s: "swot_ok a"
    by (simp_all add: schema_shaped_def)
  from c obtain d where d: "dict_get a ''competitors'' (PDict []) = PDict d"
    by (cases "dict_get a ''competitors'' (PDict [])")
      (auto simp: competitors_ok_def is_mapping_def Let_def)
  with c have "is_mapping_list (dict_get d ''top_competitors'' (PList []))"
    by (simp add: competitors_ok_def items_of_def)
  then obtain xs where xs: "dict_get d ''top_competitors'' (PList []) = PList xs"
    by (cases "dict_get d ''top_competitors'' (PList [])") (auto simp: is_mapping_list_def)
  have 1: "\<exists>ws. check_competitor_count (a, []) = Inr (a, ws)"
    using d xs by (simp add: check_competitor_count_def py_get_def dict_get_def py_len_def)
  from is_sized_len [of "dict_get a ''trends'' (PList [])"] t
  obtain n where n: "py_len (dict_get a ''trends'' (PList [])) = Inr n"
    by (auto simp: trends_ok_def)
  have 2: "\<exists>ws'. check_trend_count (a, ws) = Inr (a, ws')" for ws
    using n by (simp add: check_trend_count_def)
  from s obtain sw where sw: "dict_get a ''swot'' (PDict []) = PDict sw"
    by (cases "dict_get a ''swot'' (PDict [])") (auto simp: swot_ok_def is_mapping_def Let_def)
  with s obtain w where w: "dict_get sw ''weaknesses'' (PDict []) = PDict w"
    by (cases "dict_get sw ''weaknesses'' (PDict [])")
      (auto simp: swot_ok_def is_mapping_def Let_def items_of_def)
  from s sw w have "is_sized (dict_get w ''evidence'' (PList []))"
    by (simp add: swot_ok_def Let_def items_of_def)
  from is_sized_len [OF this] obtain k where k: "py_len (dict_get w ''evidence'' (PList [])) = Inr k"
    by blast
  have 3: "\<exists>ws'. check_weakness_count (a, ws) = Inr (a, ws')" for ws
    using sw w k by (simp add: check_weakness_count_def py_get_def dict_get_def)
  from 1 obtain w1 where w1: "check_competitor_count (a, []) = Inr (a, w1)" by blast
  from 2 obtain w2 where w2: "check_trend_count (a, w1) = Inr (a, w2)" by blast
  from 3 obtain w3 where w3: "check_weakness_count (a, w2) = Inr (a, w3)" by blast
  show ?thesis
    using w1 w2 w3 by (simp add: validate_analysis_quality_def)
qed

lemma postprocess_analysis_frame:
  assumes "postprocess_analysis B now a = Inr (r, out)"
  shows "\<exists>a2 a4. remove_duplicates B (normalize_texts a) = Inr a2
               \<and> strategic_sorting B a2 = Inr a4 \<and> add_metadata now a4 = Inr r"
proof -
  from assms obtain a2 a3 o1 a4 a5 o2 where
    1: "remove_duplicates B (normalize_texts a) = Inr a2"
    and 2: "validate_data_structure a2 = Inr (a3, o1)"
    and 3: "strategic_sorting B a3 = Inr a4"
    and 4: "validate_analysis_quality a4 = Inr (a5, o2)"
    and 5: "add_metadata now a5 = Inr r"
    by (auto simp: postprocess_analysis_def split: sum.splits prod.splits)
  from validate_data_structure_frame [OF 2] validate_analysis_quality_frame [OF 4]
  show ?thesis
    using 1 3 5 by simp
qed

text \<open>
  Claim C9. \<^verbatim>\<open>validate_data_structure\<close> and \<^verbatim>\<open>validate_analysis_quality\<close> leave the
  analysis as it is: whenever one of them returns, the analysis after the call is the
  analysis before it, and only warnings have been produced; inside
  \<^verbatim>\<open>postprocess_analysis\<close> the final analysis is what the four other stages compute. On
  an analysis of the expected shape both return. (On another shape, such as a competitor
  that is not a mapping, they raise; nothing is changed or removed then either.)
\<close>

theorem validators_leave_analysis_unchanged:
  "(\<forall>a' ws. validate_data_structure a = Inr (a', ws) \<longrightarrow> a' = a)
   \<and> (\<forall>a' ws. validate_analysis_quality a = Inr (a', ws) \<longrightarrow> a' = a)
   \<and> (schema_shaped a \<longrightarrow>
        (\<exists>ws. validate_data_structure a = Inr (a, ws))
        \<and> (\<exists>ws. validate_analysis_quality a = Inr (a, ws)))
   \<and> (\<forall>r out. postprocess_analysis B now a = Inr (r, out) \<longrightarrow>
        (\<exists>a2 a4. remove_duplicates B (normalize_texts a) = Inr a2
                \<and> strategic_sorting B a2 = Inr a4 \<and> add_metadata now a4 = Inr r))"
  using validate_data_structure_frame [of a] validate_analysis_quality_frame [of a]
    validate_data_structure_total [of a] validate_analysis_quality_total [of a]
    postprocess_analysis_frame [of B now a]
  by (simp add: schema_shaped_def)

theorem validators_leave_analysis_unchanged_witness:
  "schema_shaped shaped_example
   \<and> validate_data_structure shaped_example
       = Inr (shaped_example, [InvalidMarketShare (PStr ''Acme'')])
   \<and> validate_analysis_quality shaped_example
       = Inr (shaped_example, [OnlyCompetitors 1, OnlyTrends 1])"
proof -
  have h: "schema_shaped shaped_example"
    by (simp add: schema_shaped_def competitors_ok_def trends_ok_def swot_ok_def
        shaped_example_def dict_get_def items_of_def is_mapping_def is_mapping_list_def
        is_sized_def)
  from validators_leave_analysis_unchanged [of shaped_example no_builtins "[]"] h
  obtain w1 w2 where
    1: "validate_data_structure shaped_example = Inr (shaped_example, w1)"
    and 2: "validate_analysis_quality shaped_example = Inr (shaped_example, w2)"
    by blast
  have "snd (projr (validate_data_structure shaped_example)) = [InvalidMarketShare (PStr ''Acme'')]"
    by (simp add: validate_data_structure_def shaped_example_def py_get_def py_iter_def
        check_competitor_def required_competitor_fields_def is_number_def)
  with 1 have w1: "w1 = [InvalidMarketShare (PStr ''Acme'')]"
    by simp
  have "snd (projr (validate_analysis_quality shaped_example)) = [OnlyCompetitors 1, OnlyTrends 1]"
    by (simp add: validate_analysis_quality_def shaped_example_def check_competitor_count_def
        check_trend_count_def check_weakness_count_def py_get_def py_len_def dict_get_def)
  with 2 have w2: "w2 = [OnlyCompetitors 1, OnlyTrends 1]"
    by simp
  show ?thesis
    using h 1 2 w1 w2 by simp
qed

section \<open>Properties of \<^verbatim>\<open>preprocess_data\<close>\<close>

lemma preprocess_data_missing_keys:
  "preprocess_data B [] = Inr \<lparr>news = [], search_results = []\<rparr>"
  by (simp add: preprocess_data_def dict_get_def py_get_def extract_text_def py_iter_def
      process_search_results_def py_prefix_def)

text \<open>
  Claim C3 fails on the code. An article with a \<^verbatim>\<open>description\<close> and no \<^verbatim>\<open>title\<close> makes
  \<^verbatim>\<open>extract_text\<close> raise \<^verbatim>\<open>KeyError\<close> (it reads \<^verbatim>\<open>a['title']\<close>, where
  \<^verbatim>\<open>process_search_results\<close> reads \<^verbatim>\<open>r.get("title", "")\<close>), and a \<^verbatim>\<open>market_news\<close> that is
  \<^verbatim>\<open>None\<close> instead of a mapping makes \<^verbatim>\<open>preprocess_data\<close> raise \<^verbatim>\<open>AttributeError\<close>.
\<close>

theorem preprocess_data_raises:
  "preprocess_data B
     [(''market_news'', PDict [(''articles'', PList [PDict [(''description'', PStr ''d'')]])]),
      (''search_results'', PDict [])]
   = Inl KeyError
   \<and> preprocess_data B [(''market_news'', PNone), (''search_results'', PDict [])]
   = Inl AttributeError"
  by (simp add: preprocess_data_def dict_get_def py_get_def extract_text_def py_iter_def
      extract_one_def py_truthy_def items_of_def)

section \<open>Properties of the retried invocation\<close>

lemma wait_exponential_bounds:
  "4 \<le> wait_exponential 1 4 10 n \<and> wait_exponential 1 4 10 n \<le> 10"
  by (simp add: wait_exponential_def)

lemma wait_exponential_first_two:
  "wait_exponential 1 4 10 1 = 4" "wait_exponential 1 4 10 2 = 4"
  by (simp_all add: wait_exponential_def)

lemma retry_first_success:
  assumes "f s = (Inr v, s1)"
  shows "retry_loop 3 w f 1 s 0 = \<lparr>returned = Inr v, state_after = s1, slept = 0, attempts = 1\<rparr>"
  using assms by (subst retry_loop.simps) simp

lemma retry_second_success:
  assumes "f s = (Inl e1, s1)" and "f s1 = (Inr v, s2)"
  shows "retry_loop 3 w f 1 s 0 =
           \<lparr>returned = Inr v, state_after = s2, slept = w 1, attempts = 2\<rparr>"
proof -
  have "retry_loop 3 w f 1 s 0 = retry_loop 3 w f 2 s1 (w 1)"
    using assms(1) by (subst retry_loop.simps) (simp add: numeral_2_eq_2)
  also have "\<dots> = \<lparr>returned = Inr v, state_after = s2, slept = w 1, attempts = 2\<rparr>"
    using assms(2) by (subst retry_loop.simps) simp
  finally show ?thesis .
qed

lemma retry_third_success:
  assumes "f s = (Inl e1, s1)" and "f s1 = (Inl e2, s2)" and "f s2 = (Inr v, s3)"
  shows "retry_loop 3 w f 1 s 0 =
           \<lparr>returned = Inr v, state_after = s3, slept = w 1 + w 2, attempts = 3\<rparr>"
proof -
  have "retry_loop 3 w f 1 s 0 = retry_loop 3 w f 2 s1 (w 1)"
    using assms(1) by (subst retry_loop.simps) (simp add: numeral_2_eq_2)
  also have "\<dots> = retry_loop 3 w f 3 s2 (w 1 + w 2)"
    using assms(2) by (subst retry_loop.simps) simp
  also have "\<dots> = \<lparr>returned = Inr v, state_after = s3, slept = w 1 + w 2, attempts = 3\<rparr>"
    using assms(3) by (subst retry_loop.simps) simp
  finally show ?thesis .
qed

lemma retry_three_failures:
  assumes "f s = (Inl e1, s1)" and "f s1 = (Inl e2, s2)" and "f s2 = (Inl e3, s3)"
  shows "retry_loop 3 w f 1 s 0 =
           \<lparr>returned = Inl (RetryError e3), state_after = s3, slept = w 1 + w 2, attempts = 3\<rparr>"
proof -
  have "retry_loop 3 w f 1 s 0 = retry_loop 3 w f 2 s1 (w 1)"
    using assms(1) by (subst retry_loop.simps) (simp add: numeral_2_eq_2)
  also have "\<dots> = retry_loop 3 w f 3 s2 (w 1 + w 2)"
    using assms(2) by (subst retry_loop.simps) simp
  also have "\<dots> = \<lparr>returned = Inl (RetryError e3), state_after = s3, slept = w 1 + w 2,
                      attempts = 3\<rparr>"
    using assms(3) by (subst retry_loop.simps) simp
  finally show ?thesis .
qed

lemma retry_attempts_and_sleep:
  "1 \<le> attempts (retry_loop 3 (wait_exponential 1 4 10) f 1 s 0)
   \<and> attempts (retry_loop 3 (wait_exponential 1 4 10) f 1 s 0) \<le> 3
   \<and> slept (retry_loop 3 (wait_exponential 1 4 10) f 1 s 0) =
       4 * (attempts (retry_loop 3 (wait_exponential 1 4 10) f 1 s 0) - 1)"
proof -
  let ?w = "wait_exponential 1 4 10"
  obtain r1 s1 where 1: "f s = (r1, s1)" by (cases "f s")
  obtain r2 s2 where 2: "f s1 = (r2, s2)" by (cases "f s1")
  obtain r3 s3 where 3: "f s2 = (r3, s3)" by (cases "f s2")
  show ?thesis
  proof (cases r1)
    case (Inr v)
    with 1 have eq: "retry_loop 3 ?w f 1 s 0 =
        \<lparr>returned = Inr v, state_after = s1, slept = 0, attempts = 1\<rparr>"
      by (intro retry_first_success) simp
    show ?thesis unfolding eq by simp
  next
    case e1: (Inl e1)
    show ?thesis
    proof (cases r2)
      case (Inr v)
      with 1 2 e1 have eq: "retry_loop 3 ?w f 1 s 0 =
          \<lparr>returned = Inr v, state_after = s2, slept = ?w 1, attempts = 2\<rparr>"
        by (intro retry_second_success) simp_all
      show ?thesis unfolding eq wait_exponential_first_two by simp
    next
      case e2: (Inl e2)
      show ?thesis
      proof (cases r3)
        case (Inr v)
        with 1 2 3 e1 e2 have eq: "retry_loop 3 ?w f 1 s 0 =
            \<lparr>returned = Inr v, state_after = s3, slept = ?w 1 + ?w 2, attempts = 3\<rparr>"
          by (intro retry_third_success) simp_all
        show ?thesis unfolding eq wait_exponential_first_two by simp
      next
        case (Inl e3)
        with 1 2 3 e1 e2 have eq: "retry_loop 3 ?w f 1 s 0 =
            \<lparr>returned = Inl (RetryError e3), state_after = s3, slept = ?w 1 + ?w 2,
             attempts = 3\<rparr>"
          by (intro retry_three_failures) simp_all
        show ?thesis unfolding eq wait_exponential_first_two by simp
      qed
    qed
  qed
qed

lemma call_chunks_responses:
  "call_chunks B L sp up chunks acc s = (Inr rs, s') \<Longrightarrow>
   \<exists>new. rs = acc @ new \<and> length new = length chunks"
proof (induction chunks arbitrary: acc s)
  case Nil
  then show ?case by simp
next
  case (Cons c chunks)
  let ?msg = "up @ [CHR ''\<newline>'', CHR ''\<newline>''] @ ''Relevant data:''
                 @ [CHR ''\<newline>''] @ py_str B c"
  obtain r s1 where r: "L s sp ?msg = (r, s1)" by (cases "L s sp ?msg")
  show ?case
  proof (cases r)
    case (Inl e)
    with Cons.prems r show ?thesis by simp
  next
    case (Inr v)
    with Cons.prems r have "call_chunks B L sp up chunks (acc @ [v]) s1 = (Inr rs, s')"
      by simp
    from Cons.IH [OF this] obtain new where "rs = (acc @ [v]) @ new" "length new = length chunks"
      by blast
    then have "rs = acc @ (v # new) \<and> length (v # new) = length (c # chunks)"
      by simp
    then show ?thesis by blast
  qed
qed

lemma structured_analysis_body_merged:
  assumes "structured_analysis_body B L data sp up s = (Inr v, s')"
  shows "\<exists>chunks responses. chunk_data data 5 = Inr chunks
           \<and> length responses = length chunks \<and> merge_responses B responses = Inr v"
proof -
  from assms obtain chunks where c: "chunk_data data 5 = Inr chunks"
    by (auto simp: structured_analysis_body_def split: sum.splits)
  obtain r s1 where r: "call_chunks B L sp up chunks [] s = (r, s1)"
    by (cases "call_chunks B L sp up chunks [] s")
  with assms c obtain responses where rs: "r = Inr responses"
    and m: "merge_responses B responses = Inr v"
    by (cases r) (auto simp: structured_analysis_body_def)
  from call_chunks_responses [of B L sp up chunks "[]" s responses s1] r rs
  have "length responses = length chunks" by auto
  with c m show ?thesis by blast
qed

text \<open>
  Claim C7. \<^verbatim>\<open>structured_analysis\<close> runs its body (all chunks, then the merge) at
  least once and at most 3 times. Every wait between two attempts is between 4 and 10
  seconds, and the time slept is 4 seconds for each attempt after the first. When the
  first attempt succeeds its result is returned at once. When two attempts fail and the
  third succeeds, the third's result is returned, after 3 attempts and two waits (8
  seconds); that result is the merge of one response for every chunk. When three
  attempts fail, the caller gets an exception, \<^verbatim>\<open>RetryError\<close> holding the third
  attempt's exception; nothing is returned in its place.
\<close>

theorem structured_analysis_retry:
  "1 \<le> attempts (structured_analysis B L data sp up s)
   \<and> attempts (structured_analysis B L data sp up s) \<le> 3
   \<and> (\<forall>n. 4 \<le> wait_exponential 1 4 10 n \<and> wait_exponential 1 4 10 n \<le> 10)
   \<and> slept (structured_analysis B L data sp up s)
       = 4 * (attempts (structured_analysis B L data sp up s) - 1)
   \<and> (\<forall>v s1. structured_analysis_body B L data sp up s = (Inr v, s1) \<longrightarrow>
         structured_analysis B L data sp up s
           = \<lparr>returned = Inr v, state_after = s1, slept = 0, attempts = 1\<rparr>)
   \<and> (\<forall>e1 s1 e2 s2 v s3.
         structured_analysis_body B L data sp up s = (Inl e1, s1)
         \<and> structured_analysis_body B L data sp up s1 = (Inl e2, s2)
         \<and> structured_analysis_body B L data sp up s2 = (Inr v, s3) \<longrightarrow>
         structured_analysis B L data sp up s
           = \<lparr>returned = Inr v, state_after = s3, slept = 8, attempts = 3\<rparr>
         \<and> (\<exists>chunks responses. chunk_data data 5 = Inr chunks
               \<and> length responses = length chunks \<and> merge_responses B responses = Inr v))
   \<and> (\<forall>e1 s1 e2 s2 e3 s3.
         structured_analysis_body B L data sp up s = (Inl e1, s1)
         \<and> structured_analysis_body B L data sp up s1 = (Inl e2, s2)
         \<and> structured_analysis_body B L data sp up s2 = (Inl e3, s3) \<longrightarrow>
         structured_analysis B L data sp up s
           = \<lparr>returned = Inl (RetryError e3), state_after = s3, slept = 8, attempts = 3\<rparr>)"
proof -
  let ?f = "structured_analysis_body B L data sp up"
  let ?w = "wait_exponential 1 4 10"
  have w: "?w 1 + ?w 2 = 8"
    unfolding wait_exponential_first_two by simp
  have a: "1 \<le> attempts (structured_analysis B L data sp up s)
         \<and> attempts (structured_analysis B L data sp up s) \<le> 3
         \<and> slept (structured_analysis B L data sp up s)
             = 4 * (attempts (structured_analysis B L data sp up s) - 1)"
    unfolding structured_analysis_def by (rule retry_attempts_and_sleep)
  have b: "\<forall>v s1. ?f s = (Inr v, s1) \<longrightarrow>
         structured_analysis B L data sp up s
           = \<lparr>returned = Inr v, state_after = s1, slept = 0, attempts = 1\<rparr>"
    unfolding structured_analysis_def using retry_first_success [of ?f s] by blast
  have c: "\<forall>e1 s1 e2 s2 v s3.
         ?f s = (Inl e1, s1) \<and> ?f s1 = (Inl e2, s2) \<and> ?f s2 = (Inr v, s3) \<longrightarrow>
         structured_analysis B L data sp up s
           = \<lparr>returned = Inr v, state_after = s3, slept = 8, attempts = 3\<rparr>
         \<and> (\<exists>chunks responses. chunk_data data 5 = Inr chunks
               \<and> length responses = length chunks \<and> merge_responses B responses = Inr v)"
  proof (intro allI impI)
    fix e1 s1 e2 s2 v s3
    assume h: "?f s = (Inl e1, s1) \<and> ?f s1 = (Inl e2, s2) \<and> ?f s2 = (Inr v, s3)"
    then have "retry_loop 3 ?w ?f 1 s 0 =
                 \<lparr>returned = Inr v, state_after = s3, slept = ?w 1 + ?w 2, attempts = 3\<rparr>"
      by (intro retry_third_success) auto
    moreover have "\<exists>chunks responses. chunk_data data 5 = Inr chunks
               \<and> length responses = length chunks \<and> merge_responses B responses = Inr v"
      using h structured_analysis_body_merged [of B L data sp up s2 v s3] by blast
    ultimately show "structured_analysis B L data sp up s
           = \<lparr>returned = Inr v, state_after = s3, slept = 8, attempts = 3\<rparr>
         \<and> (\<exists>chunks responses. chunk_data data 5 = Inr chunks
               \<and> length responses = length chunks \<and> merge_responses B responses = Inr v)"
      using w by (simp add: structured_analysis_def)
  qed
  have d: "\<forall>e1 s1 e2 s2 e3 s3.
         ?f s = (Inl e1, s1) \<and> ?f s1 = (Inl e2, s2) \<and> ?f s2 = (Inl e3, s3) \<longrightarrow>
         structured_analysis B L data sp up s
           = \<lparr>returned = Inl (RetryError e3), state_after = s3, slept = 8, attempts = 3\<rparr>"
  proof (intro allI impI)
    fix e1 s1 e2 s2 e3 s3
    assume h: "?f s = (Inl e1, s1) \<and> ?f s1 = (Inl e2, s2) \<and> ?f s2 = (Inl e3, s3)"
    then have "retry_loop 3 ?w ?f 1 s 0 =
                 \<lparr>returned = Inl (RetryError e3), state_after = s3, slept = ?w 1 + ?w 2,
                  attempts = 3\<rparr>"
      by (intro retry_three_failures) auto
    then show "structured_analysis B L data sp up s
           = \<lparr>returned = Inl (RetryError e3), state_after = s3, slept = 8, attempts = 3\<rparr>"
      using w by (simp add: structured_analysis_def)
  qed
  show ?thesis
    using a b c d wait_exponential_bounds by blast
qed

lemma chunk_data_one_line:
  "chunk_data one_line 5 = Inr [PDict [(''search_results'', PList [PStr ''x''])]]"
  by (simp add: chunk_data_def one_line_def search_loop.simps)

lemma flaky_body:
  "structured_analysis_body no_builtins flaky_llm one_line sp up 0 = (Inl APIError, 1)"
  "structured_analysis_body no_builtins flaky_llm one_line sp up 1 = (Inl APIError, 2)"
  "structured_analysis_body no_builtins flaky_llm one_line sp up 2
     = (Inr [(''summary'', PStr ''ok'')], 3)"
  by (simp_all add: structured_analysis_body_def chunk_data_one_line flaky_llm_def
      merge_responses_def merge_value_def merge_field_def merge_scalar_def py_str_def
      py_strip_def py_isspace_def)

lemma garbling_body:
  "structured_analysis_body no_builtins garbling_llm one_line sp up s
     = (Inl JSONDecodeError, s + 1)"
  by (simp add: structured_analysis_body_def chunk_data_one_line garbling_llm_def)

theorem structured_analysis_retry_witness:
  "structured_analysis_body no_builtins flaky_llm one_line system_prompt_trends prompt_trends 0
     = (Inl APIError, 1)
   \<and> structured_analysis_body no_builtins flaky_llm one_line system_prompt_trends prompt_trends 1
     = (Inl APIError, 2)
   \<and> structured_analysis_body no_builtins flaky_llm one_line system_prompt_trends prompt_trends 2
     = (Inr [(''summary'', PStr ''ok'')], 3)
   \<and> structured_analysis no_builtins flaky_llm one_line system_prompt_trends prompt_trends 0
     = \<lparr>returned = Inr [(''summary'', PStr ''ok'')], state_after = 3, slept = 8, attempts = 3\<rparr>
   \<and> structured_analysis no_builtins garbling_llm one_line system_prompt_trends prompt_trends 0
     = \<lparr>returned = Inl (RetryError JSONDecodeError), state_after = 3, slept = 8,
        attempts = 3\<rparr>"
proof -
  let ?sp = system_prompt_trends and ?up = prompt_trends
  have f: "structured_analysis_body no_builtins flaky_llm one_line ?sp ?up 0 = (Inl APIError, 1)
      \<and> structured_analysis_body no_builtins flaky_llm one_line ?sp ?up 1 = (Inl APIError, 2)
      \<and> structured_analysis_body no_builtins flaky_llm one_line ?sp ?up 2
          = (Inr [(''summary'', PStr ''ok'')], 3)"
    using flaky_body [of ?sp ?up] by simp
  have g: "structured_analysis_body no_builtins garbling_llm one_line ?sp ?up 0
             = (Inl JSONDecodeError, 1)
      \<and> structured_analysis_body no_builtins garbling_llm one_line ?sp ?up 1
             = (Inl JSONDecodeError, 2)
      \<and> structured_analysis_body no_builtins garbling_llm one_line ?sp ?up 2
             = (Inl JSONDecodeError, 3)"
    by (simp add: garbling_body)
  have 1: "structured_analysis no_builtins flaky_llm one_line ?sp ?up 0
     = \<lparr>returned = Inr [(''summary'', PStr ''ok'')], state_after = 3, slept = 8, attempts = 3\<rparr>"
    using structured_analysis_retry [of no_builtins flaky_llm one_line ?sp ?up 0] f by blast
  have 2: "structured_analysis no_builtins garbling_llm one_line ?sp ?up 0
     = \<lparr>returned = Inl (RetryError JSONDecodeError), state_after = 3, slept = 8,
        attempts = 3\<rparr>"
    using structured_analysis_retry [of no_builtins garbling_llm one_line ?sp ?up 0] g by blast
  show ?thesis
    using f 1 2 by blast
qed

section \<open>The whole pipeline on the end-to-end example\<close>

lemma preprocess_raw_example: "preprocess_data no_builtins raw_example = Inr pre_example"
  by (simp add: preprocess_data_def raw_example_def pre_example_def dict_get_def py_get_def
      extract_text_def py_iter_def extract_one_def py_truthy_def items_of_def py_str_def
      process_search_results_def py_prefix_def search_line_def)

lemma chunk_data_pre_example:
  "chunk_data pre_example 5 =
     Inr [news_chunk [''t1: d1'', ''t2: d2'', ''t3: d3'', ''t4: d4'', ''t5: d5''],
          search_chunk [''r1: s1'', ''r2: s2'', ''r3: s3'']]"
  by (simp add: chunk_data_def pre_example_def search_loop.simps news_chunk_def
      search_chunk_def)

lemma prompts_distinct:
  "competitors_system_prompt \<noteq> system_prompt_trends"
  "swot_system_prompt \<noteq> system_prompt_trends"
  "swot_system_prompt \<noteq> competitors_system_prompt"
  by (simp_all add: competitors_system_prompt_def system_prompt_trends_def
      swot_system_prompt_def)

lemma call_chunks_stub:
  "call_chunks B stub_llm sp up chunks acc s =
     (Inr (acc @ replicate (length chunks)
                   (if sp = system_prompt_trends then stub_trends
                    else if sp = competitors_system_prompt then stub_competitors
                    else stub_swot)), s)"
  by (induction chunks arbitrary: acc) (simp_all add: stub_llm_def replicate_app_Cons_same)

lemma body_stub:
  "structured_analysis_body B stub_llm pre_example sp up s =
     (merge_responses B
        (replicate 2 (if sp = system_prompt_trends then stub_trends
                      else if sp = competitors_system_prompt then stub_competitors
                      else stub_swot)), s)"
  unfolding structured_analysis_body_def chunk_data_pre_example call_chunks_stub
  by (simp add: numeral_2_eq_2)

lemma merge_stub_trends:
  "merge_responses no_builtins (replicate 2 stub_trends) = Inr merged_trends"
  by (simp add: numeral_2_eq_2 merge_responses_def stub_trends_def merged_trends_def
      merge_value_def merge_field_def merge_scalar_def py_str_def py_strip_def py_isspace_def)

lemma merge_stub_competitors:
  "merge_responses no_builtins (replicate 2 stub_competitors) = Inr merged_competitors"
  by (simp add: numeral_2_eq_2 merge_responses_def stub_competitors_def merged_competitors_def
      merge_value_def merge_field_def merge_scalar_def py_str_def py_strip_def py_isspace_def)

lemma merge_stub_swot:
  "merge_responses no_builtins (replicate 2 stub_swot) = Inr (items_of stub_swot)"
  by (simp add: numeral_2_eq_2 merge_responses_def stub_swot_def items_of_def
      merge_value_def merge_field_def dict_update_def)

lemma analyses_stub:
  "analyze_with_fallback no_builtins stub_llm pre_example prompt_trends ''trends'' s
     = \<lparr>returned = Inr merged_trends, state_after = s, slept = 0, attempts = 1\<rparr>"
  "analyze_competitors no_builtins stub_llm pre_example s
     = \<lparr>returned = Inr merged_competitors, state_after = s, slept = 0, attempts = 1\<rparr>"
  "swot_analysis no_builtins stub_llm pre_example s
     = \<lparr>returned = Inr (items_of stub_swot), state_after = s, slept = 0, attempts = 1\<rparr>"
  unfolding analyze_with_fallback_def analyze_competitors_def swot_analysis_def
    structured_analysis_def
  by (rule retry_first_success,
      simp add: body_stub get_system_prompt_def prompts_distinct merge_stub_trends
        merge_stub_competitors merge_stub_swot)+

lemma normalize_example:
  "normalize_texts [(''trends'', PDict merged_trends), (''competitors'', PDict merged_competitors),
                    (''swot'', PDict (items_of stub_swot))]
   = [(''trends'', process_value (PDict merged_trends)),
      (''competitors'', PDict merged_competitors), (''swot'', stub_swot)]"
  by (simp add: normalize_texts_def text_fields_def normalize_field_def items_of_def
      stub_swot_def del: process_value.simps)

lemma iter_normalized_trends:
  "py_iter (process_value (PDict merged_trends)) = Inr [PStr ''trends'', PStr ''summary'']"
  by (simp add: py_iter_def merged_trends_def)

lemma remove_duplicates_example:
  "remove_duplicates no_builtins
     [(''trends'', process_value (PDict merged_trends)),
      (''competitors'', PDict merged_competitors), (''swot'', stub_swot)]
   = Inr [(''trends'', PList [PStr ''trends'', PStr ''summary'']),
          (''competitors'', PDict merged_competitors), (''swot'', stub_swot)]"
  by (simp add: remove_duplicates_def remove_duplicates_key_def iter_normalized_trends
      create_hash_def py_str_def del: process_value.simps)

lemma validate_structure_example:
  "validate_data_structure
     [(''trends'', PList [PStr ''trends'', PStr ''summary'']),
      (''competitors'', PDict merged_competitors), (''swot'', stub_swot)]
   = Inr ([(''trends'', PList [PStr ''trends'', PStr ''summary'']),
           (''competitors'', PDict merged_competitors), (''swot'', stub_swot)], [])"
  by (simp add: validate_data_structure_def merged_competitors_def py_get_def py_iter_def
      check_competitor_def required_competitor_fields_def is_number_def)

lemma strategic_sorting_example:
  "strategic_sorting no_builtins
     [(''trends'', PList [PStr ''trends'', PStr ''summary'']),
      (''competitors'', PDict merged_competitors), (''swot'', stub_swot)]
   = Inr [(''trends'', PList [PStr ''trends'', PStr ''summary'']),
          (''competitors'', PDict merged_competitors), (''swot'', stub_swot)]"
  by (simp add: strategic_sorting_def py_iter_def has_impact_score_def)

lemma validate_quality_example:
  "validate_analysis_quality
     [(''trends'', PList [PStr ''trends'', PStr ''summary'']),
      (''competitors'', PDict merged_competitors), (''swot'', stub_swot)]
   = Inr ([(''trends'', PList [PStr ''trends'', PStr ''summary'']),
           (''competitors'', PDict merged_competitors), (''swot'', stub_swot)], [])"
  by (simp add: validate_analysis_quality_def check_competitor_count_def check_trend_count_def
      check_weakness_count_def dict_get_def py_get_def py_len_def merged_competitors_def
      stub_swot_def)

lemma add_metadata_example:
  "add_metadata now
     [(''trends'', PList [PStr ''trends'', PStr ''summary'']),
      (''competitors'', PDict merged_competitors), (''swot'', stub_swot)]
   = Inr (final_example now)"
  by (simp add: add_metadata_def calculate_quality_score_def dict_get_def py_len_def
      final_example_def)

lemma postprocess_example:
  "postprocess_analysis no_builtins now
     [(''trends'', PDict merged_trends), (''competitors'', PDict merged_competitors),
      (''swot'', PDict (items_of stub_swot))]
   = Inr (final_example now, [])"
  unfolding postprocess_analysis_def normalize_example remove_duplicates_example
  by (simp add: validate_structure_example strategic_sorting_example validate_quality_example
      add_metadata_example)

text \<open>
  The same happens on every run that returns, whatever the raw data and the answers of
  the language model: the final \<^verbatim>\<open>trends\<close> is a list of strings (keys of the merged trend
  response), never a list of trend mappings.
\<close>

lemma remove_duplicates_key_absent:
  "map_of a key = None \<Longrightarrow> remove_duplicates_key B a key = Inr a"
  by (simp add: remove_duplicates_key_def)

lemma remove_duplicates_trends_keys:
  assumes "remove_duplicates B a = Inr a2"
    and "map_of a ''trends'' = Some (PDict d)"
    and "map_of a ''strengths'' = None" and "map_of a ''weaknesses'' = None"
  shows "\<exists>u. map_of a2 ''trends'' = Some (PList u) \<and> list_all is_str u"
proof -
  from assms(1) obtain a1 where 1: "remove_duplicates_key B a ''trends'' = Inr a1"
    and rest: "remove_duplicates_keys B a1 [''strengths'', ''weaknesses''] = Inr a2"
    by (auto simp: remove_duplicates_def split: sum.splits)
  from 1 assms(2) obtain u where
    u: "dedup_loop B (map (\<lambda>kv. PStr (fst kv)) d) {} [] = Inr u"
    and a1: "a1 = AList.update ''trends'' (PList u) a"
    by (auto simp: remove_duplicates_key_def py_iter_def split: sum.splits)
  from dedup_loop_subset [OF u] have "list_all is_str u"
    by (auto simp: list_all_iff is_str_def)
  moreover have "map_of a1 ''strengths'' = None" "map_of a1 ''weaknesses'' = None"
    using a1 assms(3,4) by (simp_all add: update_conv')
  then have "a2 = a1"
    using rest by (simp add: remove_duplicates_key_absent)
  moreover have "map_of a1 ''trends'' = Some (PList u)"
    using a1 by (simp add: update_conv')
  ultimately show ?thesis by blast
qed

lemma strategic_sorting_strings:
  assumes "strategic_sorting B a = Inr a'"
    and "map_of a ''trends'' = Some (PList u)" and "list_all is_str u"
  shows "map_of a' ''trends'' = Some (PList u)"
proof -
  have "\<not> has_impact_score t" if "t \<in> set u" for t
  proof -
    from that assms(3) have "is_str t" by (simp add: list_all_iff)
    then show ?thesis
      by (cases t) (simp_all add: is_str_def has_impact_score_def)
  qed
  then have "filter has_impact_score u = []" "filter (\<lambda>t. \<not> has_impact_score t) u = u"
    by (simp_all add: filter_empty_conv filter_id_conv)
  then show ?thesis
    using assms(1,2) by (auto simp: strategic_sorting_def py_iter_def update_conv')
qed

lemma add_metadata_trends:
  "add_metadata now a = Inr a' \<Longrightarrow> map_of a' ''trends'' = map_of a ''trends''"
  by (auto simp: add_metadata_def update_conv' split: sum.splits)

lemma analyze_trends_trends_are_strings:
  assumes "analyze_trends B L now raw_data s = Inr (final, out)"
  shows "\<exists>u. map_of final ''trends'' = Some (PList u) \<and> list_all is_str u"
proof -
  from assms obtain t c w where
    p: "postprocess_analysis B now
          [(''trends'', PDict t), (''competitors'', PDict c), (''swot'', PDict w)]
        = Inr (final, out)"
    by (auto simp: analyze_trends_def Let_def split: sum.splits)
  let ?a = "[(''trends'', PDict t), (''competitors'', PDict c), (''swot'', PDict w)]"
  from postprocess_analysis_frame [OF p] obtain a2 a4 where
    1: "remove_duplicates B (normalize_texts ?a) = Inr a2"
    and 2: "strategic_sorting B a2 = Inr a4"
    and 3: "add_metadata now a4 = Inr final"
    by blast
  have n: "map_of (normalize_texts ?a) ''trends''
             = Some (PDict (map (\<lambda>(k, v). (k, process_value v)) t))"
    "map_of (normalize_texts ?a) ''strengths'' = None"
    "map_of (normalize_texts ?a) ''weaknesses'' = None"
    by (simp_all add: map_of_normalize_texts text_fields_def)
  from remove_duplicates_trends_keys [OF 1 n] obtain u where
    u: "map_of a2 ''trends'' = Some (PList u)" "list_all is_str u"
    by blast
  from strategic_sorting_strings [OF 2 u] add_metadata_trends [OF 3]
  have "map_of final ''trends'' = Some (PList u)" by simp
  with u(2) show ?thesis by blast
qed

text \<open>
  Claim C1 fails on the code. \<^verbatim>\<open>analyze_trends\<close> stores under \<^verbatim>\<open>trends\<close> the whole merged
  response of the trend analysis, a mapping with the keys \<^verbatim>\<open>trends\<close> and \<^verbatim>\<open>summary\<close>, not
  its list of trends. \<^verbatim>\<open>remove_duplicates\<close> then iterates over that mapping, which gives
  its keys, and replaces it by the list of them. On the end-to-end example (6 news items,
  3 search results, a stub answering with the schema of each analysis type) the final
  analysis has \<^verbatim>\<open>trends = ['trends', 'summary']\<close>: two strings and no trend mapping, the
  trends of the model and their \<^verbatim>\<open>impact_score\<close> are gone. The other keys are as the
  claim has them: \<^verbatim>\<open>competitors.top_competitors\<close> (2 entries), \<^verbatim>\<open>swot\<close> with its four
  categories, \<^verbatim>\<open>metadata.quality_score = 0.5\<close>.
\<close>

theorem analyze_trends_loses_trends:
  "analyze_trends no_builtins stub_llm now raw_example () = Inr (final_example now, [])
   \<and> map_of (final_example now) ''trends'' = Some (PList [PStr ''trends'', PStr ''summary''])"
proof -
  have "analyze_trends no_builtins stub_llm now raw_example () = Inr (final_example now, [])"
    unfolding analyze_trends_def preprocess_raw_example
    by (simp add: analyses_stub postprocess_example)
  then show ?thesis
    by (simp add: final_example_def)
qed

end
